theory Spec2Isabelle
  imports Main
begin

section \<open>Package container: the capability Container\<close>

text \<open>
  The host objects handed to the \<open>Apply\<close> operations are Go pointers
  (\<^verbatim>\<open>*mux.Router\<close>, \<^verbatim>\<open>*grpc.Server\<close>, \<^verbatim>\<open>*cron.Cron\<close>, \<^verbatim>\<open>*cobra.Command\<close>,
  \<^verbatim>\<open>*run.Group\<close>). Each is a type of its own, holding the address it points to.
\<close>

datatype Router = Router nat
datatype Server = Server nat
datatype Cron = Cron nat
datatype Command = Command nat
datatype Group = Group nat

text \<open>
  A callback is Go code run for its side effect. It is a function on the state \<open>'w\<close> of
  everything outside the Container (the hosts included); \<open>None\<close> is a callback that
  panics, which ends the caller's loop as the panic unwinds it.
\<close>

type_synonym 'w effect = "'w \<Rightarrow> 'w option"

text \<open>
  A module is a Go value of type \<^verbatim>\<open>interface{}\<close>. What \<open>AddModule\<close> can observe of it is
  its dynamic type: either the function type \<^verbatim>\<open>func()\<close>, which has no methods, or any
  other type, of which only the method set matters. \<open>methods\<close> holds, for each of the six
  provider interfaces, the method value when the dynamic type has that method. The nil
  interface value and values without any of the six methods are \<open>Value\<close> with no method.
\<close>

record 'w methods =
  ProvideHttp :: "(Router \<Rightarrow> 'w effect) option"
  ProvideGrpc :: "(Server \<Rightarrow> 'w effect) option"
  ProvideCron :: "(Cron \<Rightarrow> 'w effect) option"
  ProvideRunGroup :: "(Group \<Rightarrow> 'w effect) option"
  ProvideCommand :: "(Command \<Rightarrow> 'w effect) option"
  ProvideCloser :: "'w effect option"

datatype 'w module = Func "'w effect" | Value "'w methods"

text \<open>The type assertions of \<open>AddModule\<close>, in the comma-ok form: \<open>None\<close> is \<^verbatim>\<open>ok == false\<close>.\<close>

fun as_func :: "'w module \<Rightarrow> 'w effect option" where
  "as_func (Func p) = Some p"
| "as_func (Value v) = None"

fun as_HttpProvider :: "'w module \<Rightarrow> (Router \<Rightarrow> 'w effect) option" where
  "as_HttpProvider (Func p) = None"
| "as_HttpProvider (Value v) = ProvideHttp v"

fun as_GrpcProvider :: "'w module \<Rightarrow> (Server \<Rightarrow> 'w effect) option" where
  "as_GrpcProvider (Func p) = None"
| "as_GrpcProvider (Value v) = ProvideGrpc v"

fun as_CronProvider :: "'w module \<Rightarrow> (Cron \<Rightarrow> 'w effect) option" where
  "as_CronProvider (Func p) = None"
| "as_CronProvider (Value v) = ProvideCron v"

fun as_RunProvider :: "'w module \<Rightarrow> (Group \<Rightarrow> 'w effect) option" where
  "as_RunProvider (Func p) = None"
| "as_RunProvider (Value v) = ProvideRunGroup v"

fun as_CommandProvider :: "'w module \<Rightarrow> (Command \<Rightarrow> 'w effect) option" where
  "as_CommandProvider (Func p) = None"
| "as_CommandProvider (Value v) = ProvideCommand v"

fun as_CloserProvider :: "'w module \<Rightarrow> 'w effect option" where
  "as_CloserProvider (Func p) = None"
| "as_CloserProvider (Value v) = ProvideCloser v"

text \<open>The struct \<open>Container\<close>, field by field; a slice is a list.\<close>

record 'w Container =
  httpProviders :: "(Router \<Rightarrow> 'w effect) list"
  grpcProviders :: "(Server \<Rightarrow> 'w effect) list"
  closerProviders :: "'w effect list"
  runProviders :: "(Group \<Rightarrow> 'w effect) list"
  modules :: "'w module list"
  cronProviders :: "(Cron \<Rightarrow> 'w effect) list"
  commandProviders :: "(Command \<Rightarrow> 'w effect) list"

text \<open>The zero value \<^verbatim>\<open>Container{}\<close>: every slice is nil.\<close>

definition zero_Container :: "'w Container" where
  "zero_Container =
     \<lparr>httpProviders = [], grpcProviders = [], closerProviders = [], runProviders = [],
      modules = [], cronProviders = [], commandProviders = []\<rparr>"

text \<open>
  \<open>AddModule\<close>. The first test is the assertion to \<^verbatim>\<open>func()\<close>, which returns after the
  append to \<open>closerProviders\<close>; the six interface tests follow in the order of the source,
  each on the Container the previous one left, and the append to \<open>modules\<close> is last.
\<close>

definition AddModule :: "'w Container \<Rightarrow> 'w module \<Rightarrow> 'w Container" where
  "AddModule c module =
     (case as_func module of
        Some p \<Rightarrow> c\<lparr>closerProviders := closerProviders c @ [p]\<rparr>
      | None \<Rightarrow>
          (let c1 = (case as_HttpProvider module of
                       Some p \<Rightarrow> c\<lparr>httpProviders := httpProviders c @ [p]\<rparr> | None \<Rightarrow> c);
               c2 = (case as_GrpcProvider module of
                       Some p \<Rightarrow> c1\<lparr>grpcProviders := grpcProviders c1 @ [p]\<rparr> | None \<Rightarrow> c1);
               c3 = (case as_CronProvider module of
                       Some p \<Rightarrow> c2\<lparr>cronProviders := cronProviders c2 @ [p]\<rparr> | None \<Rightarrow> c2);
               c4 = (case as_RunProvider module of
                       Some p \<Rightarrow> c3\<lparr>runProviders := runProviders c3 @ [p]\<rparr> | None \<Rightarrow> c3);
               c5 = (case as_CommandProvider module of
                       Some p \<Rightarrow> c4\<lparr>commandProviders := commandProviders c4 @ [p]\<rparr> | None \<Rightarrow> c4);
               c6 = (case as_CloserProvider module of
                       Some p \<Rightarrow> c5\<lparr>closerProviders := closerProviders c5 @ [p]\<rparr> | None \<Rightarrow> c5)
           in c6\<lparr>modules := modules c6 @ [module]\<rparr>))"

text \<open>A sequence of registrations, first to last.\<close>

definition AddModules :: "'w Container \<Rightarrow> 'w module list \<Rightarrow> 'w Container" where
  "AddModules c ms = foldl AddModule c ms"

text \<open>
  The loop \<^verbatim>\<open>for _, p := range ps { p(host) }\<close> of the five \<open>Apply\<close> methods: the
  callbacks run from the first to the last on the state the previous one left, and a
  panic ends the loop.
\<close>

fun range_call :: "('h \<Rightarrow> 'w effect) list \<Rightarrow> 'h \<Rightarrow> 'w effect" where
  "range_call [] host w = Some w"
| "range_call (p # ps) host w =
     (case p host w of None \<Rightarrow> None | Some w' \<Rightarrow> range_call ps host w')"

definition ApplyRouter :: "'w Container \<Rightarrow> Router \<Rightarrow> 'w effect" where
  "ApplyRouter c router = range_call (httpProviders c) router"

definition ApplyGRPCServer :: "'w Container \<Rightarrow> Server \<Rightarrow> 'w effect" where
  "ApplyGRPCServer c server = range_call (grpcProviders c) server"

definition ApplyRunGroup :: "'w Container \<Rightarrow> Group \<Rightarrow> 'w effect" where
  "ApplyRunGroup c g = range_call (runProviders c) g"

definition Modules :: "'w Container \<Rightarrow> 'w module list" where
  "Modules c = modules c"

definition ApplyCron :: "'w Container \<Rightarrow> Cron \<Rightarrow> 'w effect" where
  "ApplyCron c crontab = range_call (cronProviders c) crontab"

definition ApplyRootCommand :: "'w Container \<Rightarrow> Command \<Rightarrow> 'w effect" where
  "ApplyRootCommand c command = range_call (commandProviders c) command"

text \<open>
  Three modules to run the definitions on: \<open>module_A\<close> serves HTTP and has a closer,
  \<open>module_B\<close> provides cron jobs, \<open>module_C\<close> is a bare \<^verbatim>\<open>func()\<close>. Their callbacks
  write what was called, and with which host, to a log, which is the state outside
  the Container.
\<close>

datatype event = HttpProvided string Router | CronProvided string Cron | Closed string

definition emit :: "event \<Rightarrow> event list effect" where
  "emit e w = Some (w @ [e])"

definition module_A :: "event list module" where
  "module_A = Value
     \<lparr>ProvideHttp = Some (\<lambda>router. emit (HttpProvided ''A'' router)), ProvideGrpc = None,
      ProvideCron = None, ProvideRunGroup = None, ProvideCommand = None,
      ProvideCloser = Some (emit (Closed ''A''))\<rparr>"

definition module_B :: "event list module" where
  "module_B = Value
     \<lparr>ProvideHttp = None, ProvideGrpc = None,
      ProvideCron = Some (\<lambda>crontab. emit (CronProvided ''B'' crontab)),
      ProvideRunGroup = None, ProvideCommand = None, ProvideCloser = None\<rparr>"

definition module_C :: "event list module" where
  "module_C = Func (emit (Closed ''C''))"

text \<open>A module that serves HTTP and provides cron jobs, with no other method.\<close>

definition module_D :: "event list module" where
  "module_D = Value
     \<lparr>ProvideHttp = Some (\<lambda>router. emit (HttpProvided ''D'' router)), ProvideGrpc = None,
      ProvideCron = Some (\<lambda>crontab. emit (CronProvided ''D'' crontab)),
      ProvideRunGroup = None, ProvideCommand = None, ProvideCloser = None\<rparr>"

section \<open>Shutdown: goroutines and the WaitGroup\<close>

text \<open>
  \<open>Shutdown\<close> is the one method that starts goroutines:
  \<^verbatim>\<open>
  var wg sync.WaitGroup
  for _, p := range c.closerProviders {
      wg.Add(1)
      p := p
      go func() { p(); wg.Done() }()
  }
  wg.Wait()
  \<close>
  It is modelled as a transition system whose runs are the interleavings of the
  atomic steps of the method's own goroutine and of the goroutines it starts. The
  method's goroutine is at one of four places: before \<^verbatim>\<open>wg.Add(1)\<close> of iteration \<open>i\<close>,
  before the \<^verbatim>\<open>go\<close> statement of iteration \<open>i\<close>, at \<^verbatim>\<open>wg.Wait()\<close>, or returned.
\<close>

datatype pc = AtAdd nat | AtGo nat | AtWait | Returned

text \<open>
  A started goroutine has not yet called its closer (\<open>Spawned\<close>), is inside the call
  \<^verbatim>\<open>p()\<close> (\<open>Running\<close>), has come back from it and not yet called \<^verbatim>\<open>wg.Done()\<close>
  (\<open>Finished\<close>), or has ended (\<open>Exited\<close>).
\<close>

datatype status = Spawned | Running | Finished | Exited

text \<open>
  The state of one call of \<open>Shutdown\<close>: the receiver, the place of the method's
  goroutine, the counter of \<open>wg\<close>, the goroutines started so far in the order of their
  \<^verbatim>\<open>go\<close> statements, each with the closer \<open>p\<close> its closure captured, and two logs: the
  goroutines whose call \<^verbatim>\<open>p()\<close> has begun, and those whose call has returned, in the
  order in which that happened. What a closer does while it runs is its own code and
  is not part of the state; a closer that blocks or panics never takes its return step.
\<close>

record 'w shutdown =
  receiver :: "'w Container"
  pc :: pc
  wg :: int
  tasks :: "('w effect \<times> status) list"
  invoked :: "nat list"
  returned :: "nat list"

text \<open>The head of the \<^verbatim>\<open>range\<close> loop: the next iteration, or past the last closer.\<close>

definition loop_head :: "'w Container \<Rightarrow> nat \<Rightarrow> pc" where
  "loop_head c i = (if i < length (closerProviders c) then AtAdd i else AtWait)"

definition Shutdown_init :: "'w Container \<Rightarrow> 'w shutdown" where
  "Shutdown_init c =
     \<lparr>receiver = c, pc = loop_head c 0, wg = 0, tasks = [], invoked = [], returned = []\<rparr>"

text \<open>
  The atomic steps. \<open>Add\<close> and \<open>Go\<close> are the two statements of the loop body, \<open>Wait\<close>
  is the return of \<^verbatim>\<open>wg.Wait()\<close>, which happens only when the counter is zero;
  \<open>Call j\<close>, \<open>Return j\<close> and \<open>Done j\<close> are the steps of goroutine \<open>j\<close>.
\<close>

datatype action = Add | Go | Call nat | Return nat | Done nat | Wait

text \<open>\<open>fire a s\<close> is the state after step \<open>a\<close>, or \<open>None\<close> when \<open>a\<close> cannot be taken in \<open>s\<close>.\<close>

fun set_status :: "nat \<Rightarrow> status \<Rightarrow> ('p \<times> status) list \<Rightarrow> ('p \<times> status) list" where
  "set_status j st ts = ts[j := (fst (ts ! j), st)]"

fun has_status :: "nat \<Rightarrow> status \<Rightarrow> ('p \<times> status) list \<Rightarrow> bool" where
  "has_status j st ts = (j < length ts \<and> snd (ts ! j) = st)"

fun fire :: "action \<Rightarrow> 'w shutdown \<Rightarrow> 'w shutdown option" where
  "fire Add s =
     (case pc s of AtAdd i \<Rightarrow> Some (s\<lparr>wg := wg s + 1, pc := AtGo i\<rparr>) | _ \<Rightarrow> None)"
| "fire Go s =
     (case pc s of
        AtGo i \<Rightarrow>
          Some (s\<lparr>tasks := tasks s @ [(closerProviders (receiver s) ! i, Spawned)],
                  pc := loop_head (receiver s) (Suc i)\<rparr>)
      | _ \<Rightarrow> None)"
| "fire (Call j) s =
     (if has_status j Spawned (tasks s)
      then Some (s\<lparr>tasks := set_status j Running (tasks s), invoked := invoked s @ [j]\<rparr>)
      else None)"
| "fire (Return j) s =
     (if has_status j Running (tasks s)
      then Some (s\<lparr>tasks := set_status j Finished (tasks s), returned := returned s @ [j]\<rparr>)
      else None)"
| "fire (Done j) s =
     (if has_status j Finished (tasks s)
      then Some (s\<lparr>tasks := set_status j Exited (tasks s), wg := wg s - 1\<rparr>)
      else None)"
| "fire Wait s =
     (if pc s = AtWait \<and> wg s = 0 then Some (s\<lparr>pc := Returned\<rparr>) else None)"

text \<open>A schedule is the list of steps taken, first to last.\<close>

fun run :: "action list \<Rightarrow> 'w shutdown \<Rightarrow> 'w shutdown option" where
  "run [] s = Some s"
| "run (a # as) s = (case fire a s of None \<Rightarrow> None | Some s' \<Rightarrow> run as s')"

text \<open>The states a call of \<open>Shutdown\<close> on \<open>c\<close> can be in.\<close>

definition Shutdown_reaches :: "'w Container \<Rightarrow> 'w shutdown \<Rightarrow> bool" where
  "Shutdown_reaches c s = (\<exists>sched. run sched (Shutdown_init c) = Some s)"

text \<open>The number of started goroutines that have not ended.\<close>

definition live :: "('p \<times> status) list \<Rightarrow> nat" where
  "live ts = sum_list (map (\<lambda>t. if snd t = Exited then 0 else 1) ts)"

text \<open>
  The invariant of the runs of \<open>Shutdown\<close> on \<open>c\<close>: the receiver is \<open>c\<close>; goroutine \<open>j\<close>
  holds the \<open>j\<close>-th closer of \<open>c\<close>; the loop has started one goroutine for each
  iteration it has finished; the counter of \<open>wg\<close> is the number of goroutines that
  have not ended, plus one between \<^verbatim>\<open>wg.Add(1)\<close> and the \<^verbatim>\<open>go\<close> statement; and the two
  logs hold, without repetition, the goroutines that have left \<open>Spawned\<close> and those that
  have reached \<open>Finished\<close>.
\<close>

definition Shutdown_inv :: "'w Container \<Rightarrow> 'w shutdown \<Rightarrow> bool" where
  "Shutdown_inv c s =
     (receiver s = c
      \<and> map fst (tasks s) = take (length (tasks s)) (closerProviders c)
      \<and> (case pc s of
            AtAdd i \<Rightarrow> length (tasks s) = i \<and> i < length (closerProviders c)
              \<and> wg s = int (live (tasks s))
          | AtGo i \<Rightarrow> length (tasks s) = i \<and> i < length (closerProviders c)
              \<and> wg s = int (live (tasks s)) + 1
          | AtWait \<Rightarrow> length (tasks s) = length (closerProviders c)
              \<and> wg s = int (live (tasks s))
          | Returned \<Rightarrow> length (tasks s) = length (closerProviders c)
              \<and> wg s = 0 \<and> live (tasks s) = 0)
      \<and> distinct (invoked s)
      \<and> set (invoked s) = {j. j < length (tasks s) \<and> snd (tasks s ! j) \<noteq> Spawned}
      \<and> distinct (returned s)
      \<and> set (returned s) =
          {j. j < length (tasks s) \<and> (snd (tasks s ! j) = Finished \<or> snd (tasks s ! j) = Exited)})"

text \<open>
  A state in which \<open>n\<close> goroutines have been started and goroutine \<open>j\<close> has status
  \<open>f j\<close>, and the schedule that starts every goroutine first, then lets the closers
  be called in the order \<open>xs\<close>, return in the order \<open>ys\<close> and the goroutines end in the
  order \<open>zs\<close>, before \<^verbatim>\<open>wg.Wait()\<close> returns.
\<close>

definition state_of ::
  "'w Container \<Rightarrow> pc \<Rightarrow> int \<Rightarrow> nat \<Rightarrow> (nat \<Rightarrow> status) \<Rightarrow> nat list \<Rightarrow> nat list \<Rightarrow> 'w shutdown" where
  "state_of c p w n f ivs rts =
     \<lparr>receiver = c, pc = p, wg = w,
      tasks = map (\<lambda>j. (closerProviders c ! j, f j)) [0..<n],
      invoked = ivs, returned = rts\<rparr>"

definition start_all :: "nat \<Rightarrow> action list" where
  "start_all n = concat (replicate n [Add, Go])"

definition schedule :: "nat \<Rightarrow> nat list \<Rightarrow> nat list \<Rightarrow> nat list \<Rightarrow> action list" where
  "schedule n xs ys zs = start_all n @ map Call xs @ map Return ys @ map Done zs @ [Wait]"

section \<open>Packages otetcd and otredis: clients by name\<close>

text \<open>
  A Go \<^verbatim>\<open>error\<close> made by \<^verbatim>\<open>fmt.Errorf\<close> or by a library: its message. A nil \<^verbatim>\<open>error\<close> is
  \<open>None\<close> of \<open>error option\<close>.
\<close>

datatype error = Error string

text \<open>
  A value of type \<^verbatim>\<open>interface{}\<close>, as the generic factory hands it around: the nil
  interface, a \<^verbatim>\<open>*clientv3.Client\<close> (a pointer, \<open>None\<close> when it is nil), a value whose
  dynamic type implements \<^verbatim>\<open>redis.UniversalClient\<close>, or a value of another dynamic type,
  by the name of that type. \<open>'c\<close> is the type of what a client is made of.
\<close>

datatype 'c any = NilInterface | ClientV3 "'c option" | Universal 'c | OtherType string

text \<open>
  The \<^verbatim>\<open>Closer\<close> of a pair is a function literal that closes the client it captured
  and drops the error of \<^verbatim>\<open>Close\<close>; it is held as the client it will close.
\<close>

datatype 'c closer = CloseClientV3 "'c option" | CloseUniversal 'c

record 'c Pair =
  Conn :: "'c any"
  Closer :: "'c closer"

text \<open>
  What a Go function with results \<^verbatim>\<open>(T, error)\<close> does: it panics, or it returns both
  results.
\<close>

datatype 'a result = Panic | Ok 'a

text \<open>The environment of the process; \<^verbatim>\<open>os.Getenv\<close> gives the empty string for a variable that is not set.\<close>

type_synonym env = "string \<rightharpoonup> string"

definition Getenv :: "env \<Rightarrow> string \<Rightarrow> string" where
  "Getenv e k = (case e k of None \<Rightarrow> [] | Some v \<Rightarrow> v)"

subsection \<open>The generic factory\<close>

text \<open>
  Modelled from the spec: the generic factory (\<^verbatim>\<open>di.NewFactory\<close>, \<^verbatim>\<open>async.NewFactory\<close>
  and the method \<^verbatim>\<open>Make\<close> of the factory they return), whose package is not among the
  sources. The spec, 4.2: if an instance for \<open>name\<close> is memoized, return it with no
  error; otherwise invoke the builder with \<open>name\<close>; on success, memoize the instance and
  its teardown under \<open>name\<close> and return the instance; on failure, return the builder's
  error without memoizing anything. The state of the factory is its memoization map.
\<close>

definition generic_Make ::
  "(string \<Rightarrow> error + 'c Pair) \<Rightarrow> string \<Rightarrow> (string \<rightharpoonup> 'c Pair) \<Rightarrow>
     ('c any \<times> error option) \<times> (string \<rightharpoonup> 'c Pair)" where
  "generic_Make build name cache =
     (case cache name of
        Some pair \<Rightarrow> ((Conn pair, None), cache)
      | None \<Rightarrow>
          (case build name of
             Inl err \<Rightarrow> ((NilInterface, Some err), cache)
           | Inr pair \<Rightarrow> ((Conn pair, None), cache(name \<mapsto> pair))))"

subsection \<open>Package otetcd\<close>

text \<open>
  \<^verbatim>\<open>config.Duration\<close> is a struct around a \<^verbatim>\<open>time.Duration\<close>, which is an \<^verbatim>\<open>int64\<close>
  of nanoseconds; \<open>duration\<close> is the function of that name at the end of the file.
\<close>

datatype Duration = Duration int

fun duration :: "Duration \<Rightarrow> int" where
  "duration (Duration d) = d"

text \<open>
  A \<^verbatim>\<open>grpc.DialOption\<close>: one of the two interceptor options the builder makes from the
  tracer, or any other option.
\<close>

datatype 't DialOption = WithUnaryInterceptor 't | WithStreamInterceptor 't | OtherDialOption nat

text \<open>
  The struct \<open>Option\<close> of package otetcd, with the fields the builder reads, and the
  struct \<^verbatim>\<open>clientv3.Config\<close>, with the fields the builder writes. Pointers and the
  context are held as the address they point to.
\<close>

record 't Option =
  Endpoints :: "string list"
  AutoSyncInterval :: Duration
  DialTimeout :: Duration
  DialKeepAliveTime :: Duration
  DialKeepAliveTimeout :: Duration
  MaxCallSendMsgSize :: int
  MaxCallRecvMsgSize :: int
  TLS :: "nat option"
  Username :: string
  Password :: string
  RejectOldCluster :: bool
  DialOptions :: "'t DialOption list"
  Context :: "nat option"
  LogConfig :: "nat option"
  PermitWithoutStream :: bool

record 't Config =
  Endpoints :: "string list"
  AutoSyncInterval :: int
  DialTimeout :: int
  DialKeepAliveTime :: int
  DialKeepAliveTimeout :: int
  MaxCallSendMsgSize :: int
  MaxCallRecvMsgSize :: int
  TLS :: "nat option"
  Username :: string
  Password :: string
  RejectOldCluster :: bool
  DialOptions :: "'t DialOption list"
  Context :: "nat option"
  LogConfig :: "nat option"
  PermitWithoutStream :: bool

text \<open>The composite literal \<^verbatim>\<open>Option{Endpoints: es}\<close>: every other field has its zero value.\<close>

definition Option_Endpoints :: "string list \<Rightarrow> 't Option" where
  "Option_Endpoints es =
     \<lparr>Option.Endpoints = es, Option.AutoSyncInterval = Duration 0,
      Option.DialTimeout = Duration 0, Option.DialKeepAliveTime = Duration 0,
      Option.DialKeepAliveTimeout = Duration 0, Option.MaxCallSendMsgSize = 0,
      Option.MaxCallRecvMsgSize = 0, Option.TLS = None, Option.Username = [],
      Option.Password = [], Option.RejectOldCluster = False, Option.DialOptions = [],
      Option.Context = None, Option.LogConfig = None, Option.PermitWithoutStream = False\<rparr>"

text \<open>
  The injection parameter \<open>factoryIn\<close>. \<open>Conf\<close> is the method \<^verbatim>\<open>Unmarshal\<close> of the
  configuration accessor: for a key, the mapping it writes through the pointer and
  the error it returns. An optional dependency that was not provided is \<open>None\<close>. The
  logger is written to and never read, and is left out.
\<close>

record 't factoryIn =
  Conf :: "string \<Rightarrow> (string \<rightharpoonup> 't Option) \<times> error option"
  Interceptor :: "(string \<Rightarrow> 't Config \<Rightarrow> 't Config) option"
  Tracer :: "'t option"

text \<open>
  The function literal that \<open>provideFactory\<close> passes to \<^verbatim>\<open>di.NewFactory\<close>. An error of
  \<^verbatim>\<open>Unmarshal\<close> is logged and \<open>dbConfs\<close> is used as it is. \<open>New\<close> is \<^verbatim>\<open>clientv3.New\<close>, of
  the etcd client library: for a configuration, the client pointer and the error it
  returns. The literal keeps the first and drops the second.
\<close>

definition provideFactory_build ::
  "'t factoryIn \<Rightarrow> env \<Rightarrow> ('t Config \<Rightarrow> 'c option \<times> error option) \<Rightarrow> string \<Rightarrow>
     error + 'c Pair" where
  "provideFactory_build p e New name =
     (let dbConfs = fst (factoryIn.Conf p ''etcd'') in
      case (case dbConfs name of
              Some conf \<Rightarrow> Inr conf
            | None \<Rightarrow>
                if name \<noteq> ''default''
                then Inl (Error (''etcd configuration '' @ name @ '' not valid''))
                else if Getenv e ''ETCD_ADDR'' \<noteq> []
                then Inr (Option_Endpoints [Getenv e ''ETCD_ADDR''])
                else Inr (Option_Endpoints [''127.0.0.1:6379''])) of
        Inl err \<Rightarrow> Inl err
      | Inr conf \<Rightarrow>
          (let co = \<lparr>Endpoints = Option.Endpoints conf,
                     AutoSyncInterval = duration (Option.AutoSyncInterval conf),
                     DialTimeout = duration (Option.DialTimeout conf),
                     DialKeepAliveTime = duration (Option.DialKeepAliveTime conf),
                     DialKeepAliveTimeout = duration (Option.DialKeepAliveTimeout conf),
                     MaxCallSendMsgSize = Option.MaxCallSendMsgSize conf,
                     MaxCallRecvMsgSize = Option.MaxCallRecvMsgSize conf,
                     TLS = Option.TLS conf,
                     Username = Option.Username conf,
                     Password = Option.Password conf,
                     RejectOldCluster = Option.RejectOldCluster conf,
                     DialOptions = Option.DialOptions conf,
                     Context = Option.Context conf,
                     LogConfig = Option.LogConfig conf,
                     PermitWithoutStream = Option.PermitWithoutStream conf\<rparr>;
               co1 = (case factoryIn.Tracer p of
                        None \<Rightarrow> co
                      | Some t \<Rightarrow>
                          co\<lparr>DialOptions :=
                               DialOptions co @ [WithUnaryInterceptor t, WithStreamInterceptor t]\<rparr>);
               co2 = (case factoryIn.Interceptor p of
                        None \<Rightarrow> co1
                      | Some f \<Rightarrow> f name co1);
               client = fst (New co2)
           in Inr \<lparr>Conn = ClientV3 client, Closer = CloseClientV3 client\<rparr>))"

text \<open>
  The method \<open>Make\<close> of the \<open>Factory\<close> of package otetcd. Its first argument is the
  method \<open>Make\<close> of the embedded generic factory, on a state \<open>'s\<close> of that factory. The
  type assertion \<^verbatim>\<open>client.(*clientv3.Client)\<close> has one result: it panics when the dynamic
  type is another one, and for the nil interface.
\<close>

definition otetcd_Make ::
  "(string \<Rightarrow> 's \<Rightarrow> ('c any \<times> error option) \<times> 's) \<Rightarrow> string \<Rightarrow> 's \<Rightarrow>
     ('c option \<times> error option) result \<times> 's" where
  "otetcd_Make Factory_Make name s =
     (case Factory_Make name s of
        ((client, err), s') \<Rightarrow>
          (case err of
             Some e \<Rightarrow> (Ok (None, Some e), s')
           | None \<Rightarrow>
               (case client of
                  ClientV3 c \<Rightarrow> (Ok (c, None), s')
                | _ \<Rightarrow> (Panic, s'))))"

text \<open>\<open>provideDefaultClient\<close>: \<^verbatim>\<open>maker.Make("default")\<close>.\<close>

definition provideDefaultClient ::
  "(string \<Rightarrow> 's \<Rightarrow> ('c option \<times> error option) result \<times> 's) \<Rightarrow> 's \<Rightarrow>
     ('c option \<times> error option) result \<times> 's" where
  "provideDefaultClient maker_Make s = maker_Make ''default'' s"

text \<open>
  \<open>provideConfig\<close>: the exported configuration, as the list in the field \<open>Config\<close> of
  its result. \<open>Data\<close> maps the key \<^verbatim>\<open>"etcd"\<close> to a mapping from names to options.
\<close>

record 't ExportedConfig =
  Name :: string
  Data :: "string \<rightharpoonup> (string \<rightharpoonup> 't Option)"
  Comment :: string

definition provideConfig :: "'t ExportedConfig list" where
  "provideConfig =
     [\<lparr>Name = ''otetcd'',
       Data = [''etcd'' \<mapsto> [''default'' \<mapsto>
         \<lparr>Option.Endpoints = [''127.0.0.1:2379''], Option.AutoSyncInterval = Duration 0,
          Option.DialTimeout = Duration 0, Option.DialKeepAliveTime = Duration 0,
          Option.DialKeepAliveTimeout = Duration 0, Option.MaxCallSendMsgSize = 0,
          Option.MaxCallRecvMsgSize = 0, Option.TLS = None, Option.Username = [],
          Option.Password = [], Option.RejectOldCluster = False, Option.DialOptions = [],
          Option.Context = None, Option.LogConfig = None,
          Option.PermitWithoutStream = False\<rparr>]],
       Comment = ''The configuration for ETCD.''\<rparr>]"

subsection \<open>Package otredis\<close>

text \<open>
  \<^verbatim>\<open>redis.UniversalOptions\<close>, of which the builder reads \<open>Addrs\<close> and \<open>DB\<close>; the struct
  \<open>hook\<close> the builder fills; and the injection parameter \<open>RedisIn\<close>, read as \<open>factoryIn\<close>
  is.
\<close>

record UniversalOptions =
  Addrs :: "string list"
  DB :: int

record 't hook =
  addrs :: "string list"
  database :: int
  tracer :: 't

record 't RedisIn =
  Conf :: "string \<Rightarrow> (string \<rightharpoonup> UniversalOptions) \<times> error option"
  Interceptor :: "(string \<Rightarrow> UniversalOptions \<Rightarrow> UniversalOptions) option"
  Tracer :: "'t option"

text \<open>
  The function literal that \<open>ProvideRedis\<close> passes to \<^verbatim>\<open>async.NewFactory\<close>.
  \<open>NewUniversalClient\<close> is \<^verbatim>\<open>redis.NewUniversalClient\<close>, which returns a client and no
  error, and \<open>AddHook\<close> is the method of that name of the client.
\<close>

definition ProvideRedis_build ::
  "'t RedisIn \<Rightarrow> (UniversalOptions \<Rightarrow> 'c) \<Rightarrow> ('t hook \<Rightarrow> 'c \<Rightarrow> 'c) \<Rightarrow> string \<Rightarrow>
     error + 'c Pair" where
  "ProvideRedis_build p NewUniversalClient AddHook name =
     (let dbConfs = fst (RedisIn.Conf p ''redis'') in
      case dbConfs name of
        None \<Rightarrow> Inl (Error (''redis configuration '' @ name @ '' not valid''))
      | Some conf \<Rightarrow>
          (let conf1 = (case RedisIn.Interceptor p of
                          None \<Rightarrow> conf
                        | Some f \<Rightarrow> f name conf);
               client = NewUniversalClient conf1;
               client1 = (case RedisIn.Tracer p of
                            None \<Rightarrow> client
                          | Some t \<Rightarrow>
                              AddHook \<lparr>addrs = Addrs conf1, database = DB conf1, tracer = t\<rparr>
                                client)
           in Inr \<lparr>Conn = Universal client1, Closer = CloseUniversal client1\<rparr>))"

text \<open>
  The method \<open>Make\<close> of the \<open>Factory\<close> of package otredis. The assertion
  \<^verbatim>\<open>client.(redis.UniversalClient)\<close> is to an interface: it panics when the dynamic type
  does not implement it, and for the nil interface. The result is an interface value,
  \<open>None\<close> when it is nil.
\<close>

definition otredis_Make ::
  "(string \<Rightarrow> 's \<Rightarrow> ('c any \<times> error option) \<times> 's) \<Rightarrow> string \<Rightarrow> 's \<Rightarrow>
     ('c option \<times> error option) result \<times> 's" where
  "otredis_Make Factory_Make name s =
     (case Factory_Make name s of
        ((client, err), s') \<Rightarrow>
          (case err of
             Some e \<Rightarrow> (Ok (None, Some e), s')
           | None \<Rightarrow>
               (case client of
                  Universal c \<Rightarrow> (Ok (Some c, None), s')
                | _ \<Rightarrow> (Panic, s'))))"

text \<open>
  \<open>ProvideRedis\<close>, from the making of the factory on: the factory starts with nothing
  memoized, \<^verbatim>\<open>Make("default")\<close> is called once, its error is dropped and its client is
  the field \<open>Client\<close> of the result. The result here is that field and the state of the
  factory.
\<close>

definition ProvideRedis ::
  "'t RedisIn \<Rightarrow> (UniversalOptions \<Rightarrow> 'c) \<Rightarrow> ('t hook \<Rightarrow> 'c \<Rightarrow> 'c) \<Rightarrow>
     ('c option \<times> (string \<rightharpoonup> 'c Pair)) result" where
  "ProvideRedis p NewUniversalClient AddHook =
     (case otredis_Make (generic_Make (ProvideRedis_build p NewUniversalClient AddHook))
             ''default'' Map.empty of
        (Panic, cache) \<Rightarrow> Panic
      | (Ok (defaultRedisClient, err), cache) \<Rightarrow> Ok (defaultRedisClient, cache))"

subsection \<open>Inputs to run the builders on\<close>

text \<open>
  A configuration accessor whose \<^verbatim>\<open>Unmarshal\<close> finds no entry and returns no error;
  injection parameters with that accessor and no optional dependency; an accessor
  with the one entry \<^verbatim>\<open>default\<close> for etcd, with an empty list of endpoints; an
  environment in which \<^verbatim>\<open>ETCD_ADDR\<close> is set; and
  \<^verbatim>\<open>clientv3.New\<close> as far as it is needed: the client it makes is held as the
  configuration it was made from, and a configuration without endpoints is refused
  with the error of the library.
\<close>

definition no_entries :: "string \<Rightarrow> (string \<rightharpoonup> 'a) \<times> error option" where
  "no_entries key = (Map.empty, None)"

definition etcd_unconfigured :: "unit factoryIn" where
  "etcd_unconfigured =
     \<lparr>factoryIn.Conf = no_entries, factoryIn.Interceptor = None, factoryIn.Tracer = None\<rparr>"

definition etcd_no_endpoints :: "unit factoryIn" where
  "etcd_no_endpoints =
     \<lparr>factoryIn.Conf = (\<lambda>key. ([''default'' \<mapsto> Option_Endpoints []], None)),
      factoryIn.Interceptor = None, factoryIn.Tracer = None\<rparr>"

definition redis_unconfigured :: "unit RedisIn" where
  "redis_unconfigured =
     \<lparr>RedisIn.Conf = no_entries, RedisIn.Interceptor = None, RedisIn.Tracer = None\<rparr>"

definition env_ETCD_ADDR :: env where
  "env_ETCD_ADDR = [''ETCD_ADDR'' \<mapsto> ''10.0.0.5:2379'']"

definition clientv3_New :: "'t Config \<Rightarrow> 't Config option \<times> error option" where
  "clientv3_New co =
     (if Config.Endpoints co = []
      then (None, Some (Error ''etcdclient: no available endpoints''))
      else (Some co, None))"

section \<open>The Container in the state the callbacks act on\<close>

text \<open>
  In the definitions above a callback acts on the state outside the Container. A Go
  closure can also hold the pointer to the Container and call its methods while a
  dispatch method runs. To say what a dispatch method leaves of the Container, the
  Container is here a part of the state the callbacks act on. A func value is then
  held as the address of its closure, since the Container cannot hold functions on a
  state that holds the Container, and a table \<open>code\<close> gives what calling each func value
  does. A call returns or panics, and the state it leaves is there in both cases.
\<close>

type_synonym func = nat

datatype 's outcome = Normal 's | Panicked 's

fun after :: "'s outcome \<Rightarrow> 's" where
  "after (Normal s) = s"
| "after (Panicked s) = s"

text \<open>The argument of a callback: the host of one of the five \<open>Apply\<close> methods.\<close>

datatype host =
  RouterHost Router | ServerHost Server | CronHost Cron | CommandHost Command | GroupHost Group

text \<open>
  Modules, the Container and \<open>AddModule\<close> as above, with the method values and the
  callbacks as func values.
\<close>

record methods_h =
  ProvideHttp_h :: "func option"
  ProvideGrpc_h :: "func option"
  ProvideCron_h :: "func option"
  ProvideRunGroup_h :: "func option"
  ProvideCommand_h :: "func option"
  ProvideCloser_h :: "func option"

datatype module_h = Func_h func | Value_h methods_h

record Container_h =
  httpProviders_h :: "func list"
  grpcProviders_h :: "func list"
  closerProviders_h :: "func list"
  runProviders_h :: "func list"
  modules_h :: "module_h list"
  cronProviders_h :: "func list"
  commandProviders_h :: "func list"

definition zero_Container_h :: Container_h where
  "zero_Container_h =
     \<lparr>httpProviders_h = [], grpcProviders_h = [], closerProviders_h = [], runProviders_h = [],
      modules_h = [], cronProviders_h = [], commandProviders_h = []\<rparr>"

fun AddModule_h :: "Container_h \<Rightarrow> module_h \<Rightarrow> Container_h" where
  "AddModule_h c (Func_h p) = c\<lparr>closerProviders_h := closerProviders_h c @ [p]\<rparr>"
| "AddModule_h c (Value_h v) =
     (let c1 = (case ProvideHttp_h v of
                  Some p \<Rightarrow> c\<lparr>httpProviders_h := httpProviders_h c @ [p]\<rparr> | None \<Rightarrow> c);
          c2 = (case ProvideGrpc_h v of
                  Some p \<Rightarrow> c1\<lparr>grpcProviders_h := grpcProviders_h c1 @ [p]\<rparr> | None \<Rightarrow> c1);
          c3 = (case ProvideCron_h v of
                  Some p \<Rightarrow> c2\<lparr>cronProviders_h := cronProviders_h c2 @ [p]\<rparr> | None \<Rightarrow> c2);
          c4 = (case ProvideRunGroup_h v of
                  Some p \<Rightarrow> c3\<lparr>runProviders_h := runProviders_h c3 @ [p]\<rparr> | None \<Rightarrow> c3);
          c5 = (case ProvideCommand_h v of
                  Some p \<Rightarrow> c4\<lparr>commandProviders_h := commandProviders_h c4 @ [p]\<rparr>
                | None \<Rightarrow> c4);
          c6 = (case ProvideCloser_h v of
                  Some p \<Rightarrow> c5\<lparr>closerProviders_h := closerProviders_h c5 @ [p]\<rparr>
                | None \<Rightarrow> c5)
      in c6\<lparr>modules_h := modules_h c6 @ [Value_h v]\<rparr>)"

text \<open>
  The state: the Container the receiver points to, and everything else. The methods
  take the state and leave a state; \<open>AddModule\<close> is the one that assigns to the
  Container.
\<close>

record 'x heap =
  container :: Container_h
  outside :: 'x

type_synonym 'x code = "func \<Rightarrow> host \<Rightarrow> 'x heap \<Rightarrow> 'x heap outcome"

definition AddModule_heap :: "module_h \<Rightarrow> 'x heap \<Rightarrow> 'x heap" where
  "AddModule_heap m s = s\<lparr>container := AddModule_h (container s) m\<rparr>"

text \<open>
  The loop \<^verbatim>\<open>for _, p := range ps { p(host) }\<close>. The range expression is evaluated
  once, before the first call, so the loop runs over the sequence as it was then,
  whatever the callbacks do to the Container; each callback runs on the state the one
  before it left, and a panic ends the loop in the state of the panic.
\<close>

fun range_call_h :: "'x code \<Rightarrow> func list \<Rightarrow> host \<Rightarrow> 'x heap \<Rightarrow> 'x heap outcome" where
  "range_call_h code [] h s = Normal s"
| "range_call_h code (p # ps) h s =
     (case code p h s of
        Panicked s' \<Rightarrow> Panicked s'
      | Normal s' \<Rightarrow> range_call_h code ps h s')"

definition ApplyRouter_h :: "'x code \<Rightarrow> Router \<Rightarrow> 'x heap \<Rightarrow> 'x heap outcome" where
  "ApplyRouter_h code router s =
     range_call_h code (httpProviders_h (container s)) (RouterHost router) s"

definition ApplyGRPCServer_h :: "'x code \<Rightarrow> Server \<Rightarrow> 'x heap \<Rightarrow> 'x heap outcome" where
  "ApplyGRPCServer_h code server s =
     range_call_h code (grpcProviders_h (container s)) (ServerHost server) s"

definition ApplyRunGroup_h :: "'x code \<Rightarrow> Group \<Rightarrow> 'x heap \<Rightarrow> 'x heap outcome" where
  "ApplyRunGroup_h code g s =
     range_call_h code (runProviders_h (container s)) (GroupHost g) s"

definition Modules_h :: "'x heap \<Rightarrow> module_h list \<times> 'x heap" where
  "Modules_h s = (modules_h (container s), s)"

definition ApplyCron_h :: "'x code \<Rightarrow> Cron \<Rightarrow> 'x heap \<Rightarrow> 'x heap outcome" where
  "ApplyCron_h code crontab s =
     range_call_h code (cronProviders_h (container s)) (CronHost crontab) s"

definition ApplyRootCommand_h :: "'x code \<Rightarrow> Command \<Rightarrow> 'x heap \<Rightarrow> 'x heap outcome" where
  "ApplyRootCommand_h code command s =
     range_call_h code (commandProviders_h (container s)) (CommandHost command) s"

text \<open>
  A callback that acts on the state outside the Container only, as the callbacks of
  the first definitions do, seen as code on the whole state.
\<close>

definition outside_only :: "(host \<Rightarrow> 'x effect) \<Rightarrow> host \<Rightarrow> 'x heap \<Rightarrow> 'x heap outcome" where
  "outside_only p h s =
     (case p h (outside s) of None \<Rightarrow> Panicked s | Some w \<Rightarrow> Normal (s\<lparr>outside := w\<rparr>))"

text \<open>
  Code and a state to run the methods on. Func value 0 is the \<open>ProvideHttp\<close> of a
  module that holds the Container and registers a bare \<^verbatim>\<open>func()\<close>, func value 2, on
  it; func value 1 is a \<open>ProvideHttp\<close> that writes its host to the log and panics on
  the host at address 0; every other func value does nothing. In \<open>heap_registering\<close> the
  module with func value 0 is registered, in \<open>heap_logging\<close> the one with func value 1.
\<close>

definition example_code :: "Router list code" where
  "example_code p h s =
     (if p = 0 then Normal (AddModule_heap (Func_h 2) s)
      else if p = 1 then
        (case h of
           RouterHost (Router a) \<Rightarrow>
             if a = 0 then Panicked s else Normal (s\<lparr>outside := outside s @ [Router a]\<rparr>)
         | _ \<Rightarrow> Normal s)
      else Normal s)"

definition http_module_h :: "func \<Rightarrow> module_h" where
  "http_module_h p = Value_h
     \<lparr>ProvideHttp_h = Some p, ProvideGrpc_h = None, ProvideCron_h = None,
      ProvideRunGroup_h = None, ProvideCommand_h = None, ProvideCloser_h = None\<rparr>"

definition heap_registering :: "Router list heap" where
  "heap_registering =
     \<lparr>container = AddModule_h zero_Container_h (http_module_h 0), outside = []\<rparr>"

definition heap_logging :: "Router list heap" where
  "heap_logging =
     \<lparr>container = AddModule_h zero_Container_h (http_module_h 1), outside = []\<rparr>"

section \<open>Registration: what each sequence holds\<close>

lemma AddModule_Func:
  "AddModule c (Func p) = c\<lparr>closerProviders := closerProviders c @ [p]\<rparr>"
  by (simp add: AddModule_def)

lemma httpProviders_AddModule:
  "httpProviders (AddModule c m) =
     httpProviders c @ (case as_HttpProvider m of None \<Rightarrow> [] | Some p \<Rightarrow> [p])"
  by (cases m) (simp_all add: AddModule_def Let_def split: option.split)

lemma grpcProviders_AddModule:
  "grpcProviders (AddModule c m) =
     grpcProviders c @ (case as_GrpcProvider m of None \<Rightarrow> [] | Some p \<Rightarrow> [p])"
  by (cases m) (simp_all add: AddModule_def Let_def split: option.split)

lemma cronProviders_AddModule:
  "cronProviders (AddModule c m) =
     cronProviders c @ (case as_CronProvider m of None \<Rightarrow> [] | Some p \<Rightarrow> [p])"
  by (cases m) (simp_all add: AddModule_def Let_def split: option.split)

lemma runProviders_AddModule:
  "runProviders (AddModule c m) =
     runProviders c @ (case as_RunProvider m of None \<Rightarrow> [] | Some p \<Rightarrow> [p])"
  by (cases m) (simp_all add: AddModule_def Let_def split: option.split)

lemma commandProviders_AddModule:
  "commandProviders (AddModule c m) =
     commandProviders c @ (case as_CommandProvider m of None \<Rightarrow> [] | Some p \<Rightarrow> [p])"
  by (cases m) (simp_all add: AddModule_def Let_def split: option.split)

lemma closerProviders_AddModule:
  "closerProviders (AddModule c m) =
     closerProviders c @
       (case m of Func p \<Rightarrow> [p]
        | Value v \<Rightarrow> (case ProvideCloser v of None \<Rightarrow> [] | Some p \<Rightarrow> [p]))"
  by (cases m) (simp_all add: AddModule_def Let_def split: option.split)

lemma modules_AddModule:
  "modules (AddModule c m) = modules c @ (case m of Func p \<Rightarrow> [] | Value v \<Rightarrow> [m])"
  by (cases m) (simp_all add: AddModule_def Let_def split: option.split)

lemma httpProviders_AddModules:
  "httpProviders (AddModules c ms) =
     httpProviders c @ map (the \<circ> as_HttpProvider) (filter (\<lambda>m. as_HttpProvider m \<noteq> None) ms)"
  unfolding AddModules_def
  by (induction ms arbitrary: c) (auto simp: httpProviders_AddModule)

lemma grpcProviders_AddModules:
  "grpcProviders (AddModules c ms) =
     grpcProviders c @ map (the \<circ> as_GrpcProvider) (filter (\<lambda>m. as_GrpcProvider m \<noteq> None) ms)"
  unfolding AddModules_def
  by (induction ms arbitrary: c) (auto simp: grpcProviders_AddModule)

lemma cronProviders_AddModules:
  "cronProviders (AddModules c ms) =
     cronProviders c @ map (the \<circ> as_CronProvider) (filter (\<lambda>m. as_CronProvider m \<noteq> None) ms)"
  unfolding AddModules_def
  by (induction ms arbitrary: c) (auto simp: cronProviders_AddModule)

lemma runProviders_AddModules:
  "runProviders (AddModules c ms) =
     runProviders c @ map (the \<circ> as_RunProvider) (filter (\<lambda>m. as_RunProvider m \<noteq> None) ms)"
  unfolding AddModules_def
  by (induction ms arbitrary: c) (auto simp: runProviders_AddModule)

lemma commandProviders_AddModules:
  "commandProviders (AddModules c ms) =
     commandProviders c @
       map (the \<circ> as_CommandProvider) (filter (\<lambda>m. as_CommandProvider m \<noteq> None) ms)"
  unfolding AddModules_def
  by (induction ms arbitrary: c) (auto simp: commandProviders_AddModule)

lemma range_call_append:
  "range_call (ps @ qs) host w =
     (case range_call ps host w of None \<Rightarrow> None | Some w' \<Rightarrow> range_call qs host w')"
  by (induction ps arbitrary: w) (auto split: option.split)

section \<open>Dispatch\<close>

text \<open>
  Claim C1. After any sequence \<open>ms\<close> of registrations on a Container \<open>c\<close> (the empty
  Container included), each of \<open>ApplyRouter\<close>, \<open>ApplyGRPCServer\<close>, \<open>ApplyCron\<close>,
  \<open>ApplyRootCommand\<close> and \<open>ApplyRunGroup\<close> is one pass of the call loop over the callbacks
  \<open>c\<close> already held followed by the callbacks of exactly those modules of \<open>ms\<close> that
  satisfy the capability, in the order of registration, one call for each, every call
  with the host that was given.
\<close>

theorem Apply_registration_order:
  "ApplyRouter (AddModules c ms) router =
     range_call (httpProviders c @
       map (the \<circ> as_HttpProvider) (filter (\<lambda>m. as_HttpProvider m \<noteq> None) ms)) router
   \<and> ApplyGRPCServer (AddModules c ms) server =
     range_call (grpcProviders c @
       map (the \<circ> as_GrpcProvider) (filter (\<lambda>m. as_GrpcProvider m \<noteq> None) ms)) server
   \<and> ApplyCron (AddModules c ms) crontab =
     range_call (cronProviders c @
       map (the \<circ> as_CronProvider) (filter (\<lambda>m. as_CronProvider m \<noteq> None) ms)) crontab
   \<and> ApplyRootCommand (AddModules c ms) command =
     range_call (commandProviders c @
       map (the \<circ> as_CommandProvider) (filter (\<lambda>m. as_CommandProvider m \<noteq> None) ms)) command
   \<and> ApplyRunGroup (AddModules c ms) g =
     range_call (runProviders c @
       map (the \<circ> as_RunProvider) (filter (\<lambda>m. as_RunProvider m \<noteq> None) ms)) g"
  by (simp add: ApplyRouter_def ApplyGRPCServer_def ApplyCron_def ApplyRootCommand_def
      ApplyRunGroup_def httpProviders_AddModules grpcProviders_AddModules
      cronProviders_AddModules commandProviders_AddModules runProviders_AddModules)

theorem Apply_registration_order_witness:
  "ApplyRouter (AddModules zero_Container [module_A, module_B, module_C]) (Router 7) [] =
     Some [HttpProvided ''A'' (Router 7)]
   \<and> ApplyCron (AddModules zero_Container [module_A, module_B, module_C]) (Cron 9) [] =
     Some [CronProvided ''B'' (Cron 9)]
   \<and> ApplyGRPCServer (AddModules zero_Container [module_A, module_B, module_C]) (Server 3) [] =
     Some []
   \<and> ApplyRouter (AddModules zero_Container [module_D, module_B, module_A]) (Router 7) [] =
     Some [HttpProvided ''D'' (Router 7), HttpProvided ''A'' (Router 7)]"
  using Apply_registration_order [of zero_Container "[module_A, module_B, module_C]"
      "Router 7" "Server 3" "Cron 9"]
    Apply_registration_order [of zero_Container "[module_D, module_B, module_A]" "Router 7"]
  by (simp add: zero_Container_def module_A_def module_B_def module_C_def module_D_def emit_def)

section \<open>Shutdown: the invariant\<close>

lemma live_append: "live (ts @ [(p, st)]) = live ts + (if st = Exited then 0 else 1)"
  by (simp add: live_def)

lemma live_update:
  assumes "j < length ts"
  shows "live (ts[j := (p, st)]) + (if snd (ts ! j) = Exited then 0 else 1) =
           live ts + (if st = Exited then 0 else 1)"
  using assms
proof (induction ts arbitrary: j)
  case Nil
  then show ?case by simp
next
  case (Cons t ts)
  show ?case
  proof (cases j)
    case 0
    then show ?thesis by (simp add: live_def)
  next
    case (Suc k)
    with Cons.prems have "k < length ts" by simp
    from Cons.IH [OF this] Suc show ?thesis by (simp add: live_def)
  qed
qed

lemma live_zero: "live ts = 0 \<longleftrightarrow> (\<forall>t \<in> set ts. snd t = Exited)"
  by (induction ts) (auto simp: live_def)

lemma Shutdown_inv_init: "Shutdown_inv c (Shutdown_init c)"
  by (simp add: Shutdown_inv_def Shutdown_init_def loop_head_def live_def)

lemma fire_AddE:
  assumes "fire Add s = Some s'"
  obtains i where "pc s = AtAdd i" and "s' = s\<lparr>wg := wg s + 1, pc := AtGo i\<rparr>"
  using assms by (cases "pc s") auto

lemma fire_GoE:
  assumes "fire Go s = Some s'"
  obtains i where "pc s = AtGo i"
    and "s' = s\<lparr>tasks := tasks s @ [(closerProviders (receiver s) ! i, Spawned)],
                  pc := loop_head (receiver s) (Suc i)\<rparr>"
  using assms by (cases "pc s") auto

lemma map_fst_update: "j < length ts \<Longrightarrow> map fst (ts[j := (fst (ts ! j), st)]) = map fst ts"
  by (simp add: map_update list_update_same_conv)

lemma started_update:
  assumes "j < length ts" and "st \<noteq> Spawned"
  shows "{k. k < length ts \<and> snd (ts[j := (p, st)] ! k) \<noteq> Spawned} =
           insert j {k. k < length ts \<and> snd (ts ! k) \<noteq> Spawned}"
  using assms by (auto simp: nth_list_update)

lemma ended_update_Running:
  assumes "j < length ts" and "snd (ts ! j) = Spawned"
  shows "{k. k < length ts \<and>
             (snd (ts[j := (p, Running)] ! k) = Finished \<or> snd (ts[j := (p, Running)] ! k) = Exited)} =
           {k. k < length ts \<and> (snd (ts ! k) = Finished \<or> snd (ts ! k) = Exited)}"
  using assms by (auto simp: nth_list_update)

lemma ended_update:
  assumes "j < length ts" and "st = Finished \<or> st = Exited"
  shows "{k. k < length ts \<and>
             (snd (ts[j := (p, st)] ! k) = Finished \<or> snd (ts[j := (p, st)] ! k) = Exited)} =
           insert j {k. k < length ts \<and> (snd (ts ! k) = Finished \<or> snd (ts ! k) = Exited)}"
  using assms by (auto simp: nth_list_update)

lemma started_append:
  "{k. k < Suc (length ts) \<and> snd ((ts @ [(p, Spawned)]) ! k) \<noteq> Spawned} =
     {k. k < length ts \<and> snd (ts ! k) \<noteq> Spawned}"
  by (auto simp: nth_append less_Suc_eq)

lemma ended_append:
  "{k. k < Suc (length ts) \<and>
       (snd ((ts @ [(p, Spawned)]) ! k) = Finished \<or> snd ((ts @ [(p, Spawned)]) ! k) = Exited)} =
     {k. k < length ts \<and> (snd (ts ! k) = Finished \<or> snd (ts ! k) = Exited)}"
  by (auto simp: nth_append less_Suc_eq)

lemma inv_Add:
  assumes "Shutdown_inv c s" and "fire Add s = Some s'"
  shows "Shutdown_inv c s'"
proof -
  from assms(2) obtain i where i: "pc s = AtAdd i" and s': "s' = s\<lparr>wg := wg s + 1, pc := AtGo i\<rparr>"
    by (rule fire_AddE)
  from assms(1) i show ?thesis
    unfolding Shutdown_inv_def s' by simp
qed

lemma inv_Go:
  assumes "Shutdown_inv c s" and "fire Go s = Some s'"
  shows "Shutdown_inv c s'"
proof -
  from assms(2) obtain i where i: "pc s = AtGo i"
    and s': "s' = s\<lparr>tasks := tasks s @ [(closerProviders (receiver s) ! i, Spawned)],
                  pc := loop_head (receiver s) (Suc i)\<rparr>"
    by (rule fire_GoE)
  from assms(1) i have r: "receiver s = c" and len: "length (tasks s) = i"
    and lt: "i < length (closerProviders c)" and w: "wg s = int (live (tasks s)) + 1"
    and m: "map fst (tasks s) = take i (closerProviders c)"
    by (simp_all add: Shutdown_inv_def)
  from assms(1) have logs: "distinct (invoked s)" "distinct (returned s)"
    "set (invoked s) = {j. j < length (tasks s) \<and> snd (tasks s ! j) \<noteq> Spawned}"
    "set (returned s) =
       {j. j < length (tasks s) \<and> (snd (tasks s ! j) = Finished \<or> snd (tasks s ! j) = Exited)}"
    by (simp_all add: Shutdown_inv_def)
  have "map fst (tasks s') = take (length (tasks s')) (closerProviders c)"
    using r len lt m by (simp add: s' take_Suc_conv_app_nth)
  moreover have "case pc s' of
            AtAdd i \<Rightarrow> length (tasks s') = i \<and> i < length (closerProviders c)
              \<and> wg s' = int (live (tasks s'))
          | AtGo i \<Rightarrow> length (tasks s') = i \<and> i < length (closerProviders c)
              \<and> wg s' = int (live (tasks s')) + 1
          | AtWait \<Rightarrow> length (tasks s') = length (closerProviders c)
              \<and> wg s' = int (live (tasks s'))
          | Returned \<Rightarrow> length (tasks s') = length (closerProviders c)
              \<and> wg s' = 0 \<and> live (tasks s') = 0"
    using r len lt w by (simp add: s' loop_head_def live_append)
  moreover have "set (invoked s') = {j. j < length (tasks s') \<and> snd (tasks s' ! j) \<noteq> Spawned}"
    using logs(3) by (simp add: s' started_append)
  moreover have "set (returned s') =
       {j. j < length (tasks s') \<and> (snd (tasks s' ! j) = Finished \<or> snd (tasks s' ! j) = Exited)}"
    using logs(4) by (simp add: s' ended_append)
  moreover have "receiver s' = c" "distinct (invoked s')" "distinct (returned s')"
    using r logs(1,2) by (simp_all add: s')
  ultimately show ?thesis
    unfolding Shutdown_inv_def by blast
qed

lemma inv_Call:
  assumes "Shutdown_inv c s" and "fire (Call j) s = Some s'"
  shows "Shutdown_inv c s'"
proof -
  from assms(2) have j: "j < length (tasks s)" and st: "snd (tasks s ! j) = Spawned"
    and s': "s' = s\<lparr>tasks := (tasks s)[j := (fst (tasks s ! j), Running)],
                    invoked := invoked s @ [j]\<rparr>"
    by (auto split: if_splits)
  from assms(1) have logs: "distinct (invoked s)" "distinct (returned s)"
    "set (invoked s) = {j. j < length (tasks s) \<and> snd (tasks s ! j) \<noteq> Spawned}"
    "set (returned s) =
       {j. j < length (tasks s) \<and> (snd (tasks s ! j) = Finished \<or> snd (tasks s ! j) = Exited)}"
    and r: "receiver s = c"
    and m: "map fst (tasks s) = take (length (tasks s)) (closerProviders c)"
    by (simp_all add: Shutdown_inv_def)
  have l: "live (tasks s') = live (tasks s)"
    using live_update [OF j, of "fst (tasks s ! j)" Running] st by (simp add: s')
  have "map fst (tasks s') = take (length (tasks s')) (closerProviders c)"
    using m j by (simp add: s' map_fst_update)
  moreover have "case pc s' of
            AtAdd i \<Rightarrow> length (tasks s') = i \<and> i < length (closerProviders c)
              \<and> wg s' = int (live (tasks s'))
          | AtGo i \<Rightarrow> length (tasks s') = i \<and> i < length (closerProviders c)
              \<and> wg s' = int (live (tasks s')) + 1
          | AtWait \<Rightarrow> length (tasks s') = length (closerProviders c)
              \<and> wg s' = int (live (tasks s'))
          | Returned \<Rightarrow> length (tasks s') = length (closerProviders c)
              \<and> wg s' = 0 \<and> live (tasks s') = 0"
    using assms(1) unfolding l Shutdown_inv_def by (simp add: s' split: pc.splits)
  moreover have "set (invoked s') = {j. j < length (tasks s') \<and> snd (tasks s' ! j) \<noteq> Spawned}"
    using logs(3) j by (simp add: s' started_update)
  moreover have "set (returned s') =
       {j. j < length (tasks s') \<and> (snd (tasks s' ! j) = Finished \<or> snd (tasks s' ! j) = Exited)}"
    using logs(4) j st by (simp add: s' ended_update_Running)
  moreover have "j \<notin> set (invoked s)"
    using logs(3) st by simp
  then have "distinct (invoked s')"
    using logs(1) by (simp add: s')
  moreover have "receiver s' = c" "distinct (returned s')"
    using r logs(2) by (simp_all add: s')
  ultimately show ?thesis
    unfolding Shutdown_inv_def by blast
qed

lemma inv_Return:
  assumes "Shutdown_inv c s" and "fire (Return j) s = Some s'"
  shows "Shutdown_inv c s'"
proof -
  from assms(2) have j: "j < length (tasks s)" and st: "snd (tasks s ! j) = Running"
    and s': "s' = s\<lparr>tasks := (tasks s)[j := (fst (tasks s ! j), Finished)],
                    returned := returned s @ [j]\<rparr>"
    by (auto split: if_splits)
  from assms(1) have logs: "distinct (invoked s)" "distinct (returned s)"
    "set (invoked s) = {j. j < length (tasks s) \<and> snd (tasks s ! j) \<noteq> Spawned}"
    "set (returned s) =
       {j. j < length (tasks s) \<and> (snd (tasks s ! j) = Finished \<or> snd (tasks s ! j) = Exited)}"
    and r: "receiver s = c"
    and m: "map fst (tasks s) = take (length (tasks s)) (closerProviders c)"
    by (simp_all add: Shutdown_inv_def)
  have l: "live (tasks s') = live (tasks s)"
    using live_update [OF j, of "fst (tasks s ! j)" Finished] st by (simp add: s')
  have "map fst (tasks s') = take (length (tasks s')) (closerProviders c)"
    using m j by (simp add: s' map_fst_update)
  moreover have "case pc s' of
            AtAdd i \<Rightarrow> length (tasks s') = i \<and> i < length (closerProviders c)
              \<and> wg s' = int (live (tasks s'))
          | AtGo i \<Rightarrow> length (tasks s') = i \<and> i < length (closerProviders c)
              \<and> wg s' = int (live (tasks s')) + 1
          | AtWait \<Rightarrow> length (tasks s') = length (closerProviders c)
              \<and> wg s' = int (live (tasks s'))
          | Returned \<Rightarrow> length (tasks s') = length (closerProviders c)
              \<and> wg s' = 0 \<and> live (tasks s') = 0"
    using assms(1) unfolding l Shutdown_inv_def by (simp add: s' split: pc.splits)
  moreover have "j \<in> set (invoked s)"
    using logs(3) j st by simp
  then have "set (invoked s') = {j. j < length (tasks s') \<and> snd (tasks s' ! j) \<noteq> Spawned}"
    using logs(3) j by (simp add: s' started_update insert_absorb)
  moreover have "set (returned s') =
       {j. j < length (tasks s') \<and> (snd (tasks s' ! j) = Finished \<or> snd (tasks s' ! j) = Exited)}"
    using logs(4) j by (simp add: s' ended_update)
  moreover have "j \<notin> set (returned s)"
    using logs(4) st by simp
  then have "distinct (returned s')"
    using logs(2) by (simp add: s')
  moreover have "receiver s' = c" "distinct (invoked s')"
    using r logs(1) by (simp_all add: s')
  ultimately show ?thesis
    unfolding Shutdown_inv_def by blast
qed

lemma inv_Done:
  assumes "Shutdown_inv c s" and "fire (Done j) s = Some s'"
  shows "Shutdown_inv c s'"
proof -
  from assms(2) have j: "j < length (tasks s)" and st: "snd (tasks s ! j) = Finished"
    and s': "s' = s\<lparr>tasks := (tasks s)[j := (fst (tasks s ! j), Exited)], wg := wg s - 1\<rparr>"
    by (auto split: if_splits)
  from assms(1) have logs: "distinct (invoked s)" "distinct (returned s)"
    "set (invoked s) = {j. j < length (tasks s) \<and> snd (tasks s ! j) \<noteq> Spawned}"
    "set (returned s) =
       {j. j < length (tasks s) \<and> (snd (tasks s ! j) = Finished \<or> snd (tasks s ! j) = Exited)}"
    and r: "receiver s = c"
    and m: "map fst (tasks s) = take (length (tasks s)) (closerProviders c)"
    by (simp_all add: Shutdown_inv_def)
  have l: "live (tasks s) = live (tasks s') + 1"
    using live_update [OF j, of "fst (tasks s ! j)" Exited] st by (simp add: s')
  have "map fst (tasks s') = take (length (tasks s')) (closerProviders c)"
    using m j by (simp add: s' map_fst_update)
  moreover have "case pc s' of
            AtAdd i \<Rightarrow> length (tasks s') = i \<and> i < length (closerProviders c)
              \<and> wg s' = int (live (tasks s'))
          | AtGo i \<Rightarrow> length (tasks s') = i \<and> i < length (closerProviders c)
              \<and> wg s' = int (live (tasks s')) + 1
          | AtWait \<Rightarrow> length (tasks s') = length (closerProviders c)
              \<and> wg s' = int (live (tasks s'))
          | Returned \<Rightarrow> length (tasks s') = length (closerProviders c)
              \<and> wg s' = 0 \<and> live (tasks s') = 0"
    using assms(1) unfolding l Shutdown_inv_def by (simp add: s' split: pc.splits)
  moreover have "j \<in> set (invoked s)" "j \<in> set (returned s)"
    using logs(3,4) j st by simp_all
  then have "set (invoked s') = {j. j < length (tasks s') \<and> snd (tasks s' ! j) \<noteq> Spawned}"
    "set (returned s') =
       {j. j < length (tasks s') \<and> (snd (tasks s' ! j) = Finished \<or> snd (tasks s' ! j) = Exited)}"
    using logs(3,4) j by (simp_all add: s' started_update ended_update insert_absorb)
  moreover have "receiver s' = c" "distinct (invoked s')" "distinct (returned s')"
    using r logs(1,2) by (simp_all add: s')
  ultimately show ?thesis
    unfolding Shutdown_inv_def by blast
qed

lemma inv_Wait:
  assumes "Shutdown_inv c s" and "fire Wait s = Some s'"
  shows "Shutdown_inv c s'"
proof -
  from assms(2) have p: "pc s = AtWait" and w: "wg s = 0" and s': "s' = s\<lparr>pc := Returned\<rparr>"
    by (auto split: if_splits)
  from assms(1) p w show ?thesis
    unfolding Shutdown_inv_def s' by simp
qed

lemma inv_fire:
  assumes "Shutdown_inv c s" and "fire a s = Some s'"
  shows "Shutdown_inv c s'"
  using assms
  by (cases a) (blast intro: inv_Add inv_Go inv_Call inv_Return inv_Done inv_Wait)+

lemma inv_run:
  assumes "Shutdown_inv c s" and "run sched s = Some s'"
  shows "Shutdown_inv c s'"
  using assms
proof (induction sched arbitrary: s)
  case Nil
  then show ?case by simp
next
  case (Cons a sched)
  from Cons.prems(2) obtain t where t: "fire a s = Some t" and r: "run sched t = Some s'"
    by (auto split: option.splits)
  from Cons.prems(1) t have "Shutdown_inv c t" by (rule inv_fire)
  then show ?case using r by (rule Cons.IH)
qed

section \<open>Shutdown: schedules\<close>

lemma run_append:
  "run (as @ bs) s = (case run as s of None \<Rightarrow> None | Some t \<Rightarrow> run bs t)"
  by (induction as arbitrary: s) (auto split: option.split)

lemma Shutdown_init_state_of:
  "Shutdown_init c = state_of c (loop_head c 0) 0 0 (\<lambda>j. Spawned) [] []"
  by (simp add: Shutdown_init_def state_of_def)

lemma fire_Add_Go_state_of:
  assumes "n < length (closerProviders c)"
  shows "run [Add, Go] (state_of c (loop_head c n) (int n) n (\<lambda>j. Spawned) [] []) =
           Some (state_of c (loop_head c (Suc n)) (int (Suc n)) (Suc n) (\<lambda>j. Spawned) [] [])"
  using assms by (simp add: state_of_def loop_head_def)

lemma concat_replicate_Suc: "concat (replicate (Suc n) xs) = concat (replicate n xs) @ xs"
  by (induction n) auto

lemma run_start_all:
  assumes "n \<le> length (closerProviders c)"
  shows "run (start_all n) (Shutdown_init c) =
           Some (state_of c (loop_head c n) (int n) n (\<lambda>j. Spawned) [] [])"
  using assms
proof (induction n)
  case 0
  show ?case by (simp add: start_all_def Shutdown_init_state_of)
next
  case (Suc n)
  then have n: "n < length (closerProviders c)" and le: "n \<le> length (closerProviders c)"
    by simp_all
  have "start_all (Suc n) = start_all n @ [Add, Go]"
    unfolding start_all_def by (rule concat_replicate_Suc)
  then show ?case
    using Suc.IH [OF le] fire_Add_Go_state_of [OF n] by (simp add: run_append)
qed

lemma tasks_update:
  assumes "x < n"
  shows "(map (\<lambda>j. (cs ! j, f j)) [0..<n])[x := (cs ! x, st)] =
           map (\<lambda>j. (cs ! j, (f(x := st)) j)) [0..<n]"
  using assms by (auto simp: list_eq_iff_nth_eq nth_list_update)

lemma fire_Call_state_of:
  assumes "x < n" and "f x = Spawned"
  shows "fire (Call x) (state_of c p w n f ivs rts) =
           Some (state_of c p w n (f(x := Running)) (ivs @ [x]) rts)"
  using assms tasks_update [OF assms(1), of "closerProviders c" f Running]
  by (simp add: state_of_def)

lemma fire_Return_state_of:
  assumes "x < n" and "f x = Running"
  shows "fire (Return x) (state_of c p w n f ivs rts) =
           Some (state_of c p w n (f(x := Finished)) ivs (rts @ [x]))"
  using assms tasks_update [OF assms(1), of "closerProviders c" f Finished]
  by (simp add: state_of_def)

lemma fire_Done_state_of:
  assumes "x < n" and "f x = Finished"
  shows "fire (Done x) (state_of c p w n f ivs rts) =
           Some (state_of c p (w - 1) n (f(x := Exited)) ivs rts)"
  using assms tasks_update [OF assms(1), of "closerProviders c" f Exited]
  by (simp add: state_of_def)

lemma run_Calls:
  assumes "distinct xs" and "\<forall>x \<in> set xs. x < n \<and> f x = Spawned"
  shows "run (map Call xs) (state_of c p w n f ivs rts) =
           Some (state_of c p w n (\<lambda>k. if k \<in> set xs then Running else f k) (ivs @ xs) rts)"
  using assms
proof (induction xs arbitrary: f ivs)
  case Nil
  show ?case by simp
next
  case (Cons x xs)
  let ?g = "f(x := Running)"
  from Cons.prems have x: "x < n" "f x = Spawned" and d: "distinct xs"
    and g: "\<forall>y \<in> set xs. y < n \<and> ?g y = Spawned"
    by auto
  have eq: "(\<lambda>k. if k \<in> set xs then Running else ?g k) =
            (\<lambda>k. if k \<in> set (x # xs) then Running else f k)"
    by auto
  show ?case
  proof -
    have "run (map Call (x # xs)) (state_of c p w n f ivs rts) =
            run (map Call xs) (state_of c p w n ?g (ivs @ [x]) rts)"
      by (simp only: list.map run.simps fire_Call_state_of [of x n f, OF x] option.case)
    also have "\<dots> = Some (state_of c p w n (\<lambda>k. if k \<in> set xs then Running else ?g k) ((ivs @ [x]) @ xs) rts)"
      by (rule Cons.IH [OF d g])
    finally show ?thesis
      by (simp only: eq append_assoc append.simps)
  qed
qed

lemma run_Returns:
  assumes "distinct xs" and "\<forall>x \<in> set xs. x < n \<and> f x = Running"
  shows "run (map Return xs) (state_of c p w n f ivs rts) =
           Some (state_of c p w n (\<lambda>k. if k \<in> set xs then Finished else f k) ivs (rts @ xs))"
  using assms
proof (induction xs arbitrary: f rts)
  case Nil
  show ?case by simp
next
  case (Cons x xs)
  let ?g = "f(x := Finished)"
  from Cons.prems have x: "x < n" "f x = Running" and d: "distinct xs"
    and g: "\<forall>y \<in> set xs. y < n \<and> ?g y = Running"
    by auto
  have eq: "(\<lambda>k. if k \<in> set xs then Finished else ?g k) =
            (\<lambda>k. if k \<in> set (x # xs) then Finished else f k)"
    by auto
  show ?case
  proof -
    have "run (map Return (x # xs)) (state_of c p w n f ivs rts) =
            run (map Return xs) (state_of c p w n ?g ivs (rts @ [x]))"
      by (simp only: list.map run.simps fire_Return_state_of [of x n f, OF x] option.case)
    also have "\<dots> = Some (state_of c p w n (\<lambda>k. if k \<in> set xs then Finished else ?g k) ivs ((rts @ [x]) @ xs))"
      by (rule Cons.IH [OF d g])
    finally show ?thesis
      by (simp only: eq append_assoc append.simps)
  qed
qed

lemma run_Dones:
  assumes "distinct xs" and "\<forall>x \<in> set xs. x < n \<and> f x = Finished"
  shows "run (map Done xs) (state_of c p w n f ivs rts) =
           Some (state_of c p (w - int (length xs)) n
                   (\<lambda>k. if k \<in> set xs then Exited else f k) ivs rts)"
  using assms
proof (induction xs arbitrary: f w)
  case Nil
  show ?case by simp
next
  case (Cons x xs)
  let ?g = "f(x := Exited)"
  from Cons.prems have x: "x < n" "f x = Finished" and d: "distinct xs"
    and g: "\<forall>y \<in> set xs. y < n \<and> ?g y = Finished"
    by auto
  have eq: "(\<lambda>k. if k \<in> set xs then Exited else ?g k) =
            (\<lambda>k. if k \<in> set (x # xs) then Exited else f k)"
    by auto
  show ?case
  proof -
    have "run (map Done (x # xs)) (state_of c p w n f ivs rts) =
            run (map Done xs) (state_of c p (w - 1) n ?g ivs rts)"
      by (simp only: list.map run.simps fire_Done_state_of [of x n f, OF x] option.case)
    also have "\<dots> = Some (state_of c p (w - 1 - int (length xs)) n (\<lambda>k. if k \<in> set xs then Exited else ?g k) ivs rts)"
      by (rule Cons.IH [OF d g])
    finally show ?thesis
      by (simp add: eq algebra_simps)
  qed
qed

lemma run_start_then_Calls:
  assumes "distinct xs" and "set xs = {..<length (closerProviders c)}"
  shows "run (start_all (length (closerProviders c)) @ map Call xs) (Shutdown_init c) =
           Some (state_of c AtWait (int (length (closerProviders c))) (length (closerProviders c))
                   (\<lambda>k. if k \<in> set xs then Running else Spawned) xs [])"
proof -
  let ?n = "length (closerProviders c)"
  have "run (start_all ?n) (Shutdown_init c) =
          Some (state_of c AtWait (int ?n) ?n (\<lambda>j. Spawned) [] [])"
    using run_start_all [of ?n c] by (simp add: loop_head_def)
  moreover have "run (map Call xs) (state_of c AtWait (int ?n) ?n (\<lambda>j. Spawned) [] []) =
          Some (state_of c AtWait (int ?n) ?n (\<lambda>k. if k \<in> set xs then Running else Spawned)
                  ([] @ xs) [])"
    by (rule run_Calls) (use assms in auto)
  ultimately show ?thesis
    by (simp add: run_append)
qed

lemma run_schedule:
  assumes "distinct xs" and "set xs = {..<length (closerProviders c)}"
    and "distinct ys" and "set ys = {..<length (closerProviders c)}"
    and "distinct zs" and "set zs = {..<length (closerProviders c)}"
  shows "run (schedule (length (closerProviders c)) xs ys zs) (Shutdown_init c) =
           Some (state_of c Returned 0 (length (closerProviders c)) (\<lambda>k. Exited) xs ys)"
proof -
  let ?n = "length (closerProviders c)"
  let ?f1 = "\<lambda>k. if k \<in> set xs then Running else Spawned"
  let ?f2 = "\<lambda>k. if k \<in> set ys then Finished else ?f1 k"
  let ?f3 = "\<lambda>k. if k \<in> set zs then Exited else ?f2 k"
  have len: "length zs = ?n"
    using assms(5,6) distinct_card [of zs] by simp
  have 1: "run (start_all ?n @ map Call xs) (Shutdown_init c) =
          Some (state_of c AtWait (int ?n) ?n ?f1 xs [])"
    using assms(1,2) by (rule run_start_then_Calls)
  have 2: "run (map Return ys) (state_of c AtWait (int ?n) ?n ?f1 xs []) =
          Some (state_of c AtWait (int ?n) ?n ?f2 xs ([] @ ys))"
    by (rule run_Returns) (use assms in auto)
  have 3: "run (map Done zs) (state_of c AtWait (int ?n) ?n ?f2 xs ys) =
          Some (state_of c AtWait (int ?n - int (length zs)) ?n ?f3 xs ys)"
    by (rule run_Dones) (use assms in auto)
  have 4: "fire Wait (state_of c AtWait 0 ?n ?f3 xs ys) =
          Some (state_of c Returned 0 ?n ?f3 xs ys)"
    by (simp add: state_of_def)
  have 5: "state_of c Returned 0 ?n ?f3 xs ys = state_of c Returned 0 ?n (\<lambda>k. Exited) xs ys"
    using assms(6) by (simp add: state_of_def)
  have d3: "run (map Done zs) (state_of c AtWait (int ?n) ?n ?f2 xs ys) =
          Some (state_of c AtWait 0 ?n ?f3 xs ys)"
    using 3 by (simp add: len)
  have "run (schedule ?n xs ys zs) (Shutdown_init c) =
          run ((start_all ?n @ map Call xs) @ (map Return ys @ (map Done zs @ [Wait])))
            (Shutdown_init c)"
    by (simp add: schedule_def)
  also have "\<dots> = run (map Return ys @ (map Done zs @ [Wait]))
                       (state_of c AtWait (int ?n) ?n ?f1 xs [])"
    by (simp only: run_append [of "start_all ?n @ map Call xs"] 1 option.case)
  also have "\<dots> = run (map Done zs @ [Wait]) (state_of c AtWait (int ?n) ?n ?f2 xs ys)"
    by (simp only: run_append [of "map Return ys"] 2 option.case append_Nil)
  also have "\<dots> = run [Wait] (state_of c AtWait 0 ?n ?f3 xs ys)"
    by (simp only: run_append [of "map Done zs"] d3 option.case)
  also have "\<dots> = Some (state_of c Returned 0 ?n (\<lambda>k. Exited) xs ys)"
    by (simp only: run.simps 4 5 option.case)
  finally show ?thesis .
qed

lemma Shutdown_reaches_inv: "Shutdown_reaches c s \<Longrightarrow> Shutdown_inv c s"
  unfolding Shutdown_reaches_def using inv_run [OF Shutdown_inv_init] by blast

lemma Shutdown_inv_Returned:
  assumes "Shutdown_inv c s" and "pc s = Returned"
  shows "map fst (tasks s) = closerProviders c"
    and "distinct (invoked s)" and "set (invoked s) = {..<length (closerProviders c)}"
    and "distinct (returned s)" and "set (returned s) = {..<length (closerProviders c)}"
proof -
  from assms have len: "length (tasks s) = length (closerProviders c)"
    and l: "live (tasks s) = 0"
    and m: "map fst (tasks s) = take (length (tasks s)) (closerProviders c)"
    and iv: "set (invoked s) = {j. j < length (tasks s) \<and> snd (tasks s ! j) \<noteq> Spawned}"
    and rt: "set (returned s) =
       {j. j < length (tasks s) \<and> (snd (tasks s ! j) = Finished \<or> snd (tasks s ! j) = Exited)}"
    by (simp_all add: Shutdown_inv_def)
  from l have ex: "\<And>j. j < length (tasks s) \<Longrightarrow> snd (tasks s ! j) = Exited"
    by (simp add: live_zero)
  show "map fst (tasks s) = closerProviders c"
    using m len by simp
  show "distinct (invoked s)" "distinct (returned s)"
    using assms(1) by (simp_all add: Shutdown_inv_def)
  show "set (invoked s) = {..<length (closerProviders c)}"
    using iv ex len by auto
  show "set (returned s) = {..<length (closerProviders c)}"
    using rt ex len by auto
qed

lemma all_Running:
  assumes "distinct xs" and "set xs = {..<length (closerProviders c)}"
  shows "\<exists>s. Shutdown_reaches c s \<and> length (tasks s) = length (closerProviders c)
           \<and> (\<forall>j < length (tasks s). snd (tasks s ! j) = Running)"
proof -
  let ?n = "length (closerProviders c)"
  let ?s = "state_of c AtWait (int ?n) ?n (\<lambda>k. if k \<in> set xs then Running else Spawned) xs []"
  have "Shutdown_reaches c ?s"
    unfolding Shutdown_reaches_def using run_start_then_Calls [OF assms] by blast
  moreover have "length (tasks ?s) = ?n" "\<forall>j < length (tasks ?s). snd (tasks ?s ! j) = Running"
    using assms(2) by (simp_all add: state_of_def)
  ultimately show ?thesis by blast
qed

section \<open>The builders and the typed factories: case by case\<close>

lemma provideFactory_build_absent_default:
  assumes "fst (factoryIn.Conf p ''etcd'') ''default'' = None"
  shows "\<exists>co. Config.Endpoints co =
               [if Getenv e ''ETCD_ADDR'' \<noteq> [] then Getenv e ''ETCD_ADDR''
                else ''127.0.0.1:6379'']
           \<and> provideFactory_build p e New ''default'' =
               Inr \<lparr>Conn = ClientV3 (fst (New (case factoryIn.Interceptor p of
                                                    None \<Rightarrow> co | Some f \<Rightarrow> f ''default'' co))),
                    Closer = CloseClientV3 (fst (New (case factoryIn.Interceptor p of
                                                    None \<Rightarrow> co | Some f \<Rightarrow> f ''default'' co)))\<rparr>"
proof -
  let ?co = "\<lparr>Endpoints = [if Getenv e ''ETCD_ADDR'' \<noteq> [] then Getenv e ''ETCD_ADDR''
                           else ''127.0.0.1:6379''],
      AutoSyncInterval = 0, DialTimeout = 0,
      DialKeepAliveTime = 0, DialKeepAliveTimeout = 0, MaxCallSendMsgSize = 0,
      MaxCallRecvMsgSize = 0, TLS = None, Username = [], Password = [],
      RejectOldCluster = False,
      DialOptions = (case factoryIn.Tracer p of
                       None \<Rightarrow> []
                     | Some t \<Rightarrow> [WithUnaryInterceptor t, WithStreamInterceptor t]),
      Context = None, LogConfig = None, PermitWithoutStream = False\<rparr>"
  let ?co2 = "case factoryIn.Interceptor p of None \<Rightarrow> ?co | Some f \<Rightarrow> f ''default'' ?co"
  have "Config.Endpoints ?co =
          [if Getenv e ''ETCD_ADDR'' \<noteq> [] then Getenv e ''ETCD_ADDR'' else ''127.0.0.1:6379'']"
    by simp
  moreover have "provideFactory_build p e New ''default'' =
      Inr \<lparr>Conn = ClientV3 (fst (New ?co2)), Closer = CloseClientV3 (fst (New ?co2))\<rparr>"
    using assms
    by (simp add: provideFactory_build_def Let_def Option_Endpoints_def split: option.split)
  ultimately show ?thesis
    by blast
qed

lemma provideFactory_build_absent_other:
  assumes "fst (factoryIn.Conf p ''etcd'') name = None" and "name \<noteq> ''default''"
  shows "provideFactory_build p e New name =
           Inl (Error (''etcd configuration '' @ name @ '' not valid''))"
  using assms by (simp add: provideFactory_build_def Let_def)

lemma ProvideRedis_build_absent:
  assumes "fst (RedisIn.Conf q ''redis'') name = None"
  shows "ProvideRedis_build q NewUniversalClient AddHook name =
           Inl (Error (''redis configuration '' @ name @ '' not valid''))"
  using assms by (simp add: ProvideRedis_build_def Let_def)

lemma otetcd_Make_error:
  assumes "Factory_Make name s = ((v, Some err), s')"
  shows "otetcd_Make Factory_Make name s = (Ok (None, Some err), s')"
  using assms by (simp add: otetcd_Make_def)

lemma otetcd_Make_ClientV3:
  assumes "Factory_Make name s = ((ClientV3 c, None), s')"
  shows "otetcd_Make Factory_Make name s = (Ok (c, None), s')"
  using assms by (simp add: otetcd_Make_def)

lemma otetcd_Make_mismatch:
  assumes "Factory_Make name s = ((v, None), s')" and "\<forall>c. v \<noteq> ClientV3 c"
  shows "otetcd_Make Factory_Make name s = (Panic, s')"
  using assms by (cases v) (simp_all add: otetcd_Make_def)

lemma otredis_Make_error:
  assumes "Factory_Make name s = ((v, Some err), s')"
  shows "otredis_Make Factory_Make name s = (Ok (None, Some err), s')"
  using assms by (simp add: otredis_Make_def)

lemma otredis_Make_Universal:
  assumes "Factory_Make name s = ((Universal r, None), s')"
  shows "otredis_Make Factory_Make name s = (Ok (Some r, None), s')"
  using assms by (simp add: otredis_Make_def)

lemma otredis_Make_mismatch:
  assumes "Factory_Make name s = ((v, None), s')" and "\<forall>r. v \<noteq> Universal r"
  shows "otredis_Make Factory_Make name s = (Panic, s')"
  using assms by (cases v) (simp_all add: otredis_Make_def)

lemma provideFactory_build_fallback:
  assumes "fst (factoryIn.Conf p ''etcd'') ''default'' = None" and "e ''ETCD_ADDR'' = None"
  shows "\<exists>co. Config.Endpoints co = [''127.0.0.1:6379'']
           \<and> provideFactory_build p e New ''default'' =
               Inr \<lparr>Conn = ClientV3 (fst (New (case factoryIn.Interceptor p of
                                                    None \<Rightarrow> co | Some f \<Rightarrow> f ''default'' co))),
                    Closer = CloseClientV3 (fst (New (case factoryIn.Interceptor p of
                                                    None \<Rightarrow> co | Some f \<Rightarrow> f ''default'' co)))\<rparr>"
proof -
  let ?co = "\<lparr>Endpoints = [''127.0.0.1:6379''], AutoSyncInterval = 0, DialTimeout = 0,
      DialKeepAliveTime = 0, DialKeepAliveTimeout = 0, MaxCallSendMsgSize = 0,
      MaxCallRecvMsgSize = 0, TLS = None, Username = [], Password = [],
      RejectOldCluster = False,
      DialOptions = (case factoryIn.Tracer p of
                       None \<Rightarrow> []
                     | Some t \<Rightarrow> [WithUnaryInterceptor t, WithStreamInterceptor t]),
      Context = None, LogConfig = None, PermitWithoutStream = False\<rparr>"
  let ?co2 = "case factoryIn.Interceptor p of None \<Rightarrow> ?co | Some f \<Rightarrow> f ''default'' ?co"
  have "Config.Endpoints ?co = [''127.0.0.1:6379'']"
    by simp
  moreover have "provideFactory_build p e New ''default'' =
      Inr \<lparr>Conn = ClientV3 (fst (New ?co2)), Closer = CloseClientV3 (fst (New ?co2))\<rparr>"
    using assms
    by (simp add: provideFactory_build_def Let_def Getenv_def Option_Endpoints_def
        split: option.split)
  ultimately show ?thesis
    by blast
qed

section \<open>The Container in the state: what the call loop leaves\<close>

lemma range_call_h_container:
  assumes "\<forall>p \<in> set fs. \<forall>h t. container (after (code p h t)) = container t"
  shows "container (after (range_call_h code fs h s)) = container s"
  using assms
proof (induction fs arbitrary: s)
  case Nil
  show ?case by simp
next
  case (Cons p fs)
  from Cons.prems have p: "container (after (code p h s)) = container s"
    and rest: "\<forall>q \<in> set fs. \<forall>h t. container (after (code q h t)) = container t"
    by simp_all
  show ?case
  proof (cases "code p h s")
    case (Normal s')
    with p have "container s' = container s" by simp
    with Cons.IH [OF rest, of s'] Normal show ?thesis by simp
  next
    case (Panicked s')
    with p show ?thesis by simp
  qed
qed

lemma AddModule_h_neq: "AddModule_h c m \<noteq> c"
proof (cases m)
  case (Func_h p)
  have "length (closerProviders_h (AddModule_h c m)) = Suc (length (closerProviders_h c))"
    by (simp add: Func_h)
  then show ?thesis by auto
next
  case (Value_h v)
  have "length (modules_h (AddModule_h c m)) = Suc (length (modules_h c))"
    by (simp add: Value_h Let_def split: option.split)
  then show ?thesis by auto
qed

text \<open>
  For callbacks that act on the state outside the Container only, the loop on the
  whole state is the loop of the first definitions: it returns with the state outside
  that the first loop leaves, and panics when the first loop does.
\<close>

lemma range_call_h_outside_only:
  assumes "\<forall>p \<in> set fs. code p h = outside_only (eff p) h"
  shows "case range_call (map (\<lambda>p u. eff p h) fs) () (outside s) of
           Some w \<Rightarrow> range_call_h code fs h s = Normal (s\<lparr>outside := w\<rparr>)
         | None \<Rightarrow> (\<exists>s'. range_call_h code fs h s = Panicked s')"
  using assms
proof (induction fs arbitrary: s)
  case Nil
  show ?case by simp
next
  case (Cons p fs)
  then have p: "code p h = outside_only (eff p) h"
    and rest: "\<forall>q \<in> set fs. code q h = outside_only (eff q) h"
    by simp_all
  show ?case
  proof (cases "eff p h (outside s)")
    case None
    then show ?thesis by (simp add: p outside_only_def)
  next
    case (Some w)
    then have c: "code p h s = Normal (s\<lparr>outside := w\<rparr>)"
      by (simp add: p outside_only_def)
    show ?thesis
      using Cons.IH [OF rest, of "s\<lparr>outside := w\<rparr>"] Some c
      by (simp split: option.splits)
  qed
qed

section \<open>Registration and the module collection\<close>

text \<open>
  Claim C2, as the claim states it, fails: a module that is a bare \<^verbatim>\<open>func()\<close> is appended
  to \<open>closerProviders\<close> and \<open>AddModule\<close> returns before the append to \<open>modules\<close>, so
  \<open>Modules()\<close> does not hold it, while a module whose only method is \<open>ProvideCloser\<close>
  with the same closer is held.
\<close>

theorem bare_func_not_in_Modules:
  "Modules (AddModule zero_Container module_C) = []
   \<and> module_C \<notin> set (Modules (AddModule zero_Container module_C))
   \<and> Modules (AddModule zero_Container
        (Value \<lparr>ProvideHttp = None, ProvideGrpc = None, ProvideCron = None,
           ProvideRunGroup = None, ProvideCommand = None,
           ProvideCloser = Some (emit (Closed ''C''))\<rparr>)) \<noteq>
       Modules (AddModule zero_Container module_C)"
  by (simp add: Modules_def modules_AddModule module_C_def zero_Container_def)

text \<open>
  Claim C2, amended. \<open>AddModule\<close> appends to the module collection every module that
  is not a bare \<^verbatim>\<open>func()\<close>, and does not append a bare \<^verbatim>\<open>func()\<close>; a bare \<^verbatim>\<open>func()\<close>
  is appended to \<open>closerProviders\<close>, and registering it leaves the Container that
  registering a module with that closer as its only method leaves, but for the module
  collection, which it does not change.
\<close>

theorem AddModule_Modules:
  "Modules (AddModule c m) = (case m of Func p \<Rightarrow> Modules c | Value v \<Rightarrow> Modules c @ [m])
   \<and> closerProviders (AddModule c (Func p)) = closerProviders c @ [p]
   \<and> AddModule c (Func p) =
       (AddModule c (Value \<lparr>ProvideHttp = None, ProvideGrpc = None, ProvideCron = None,
           ProvideRunGroup = None, ProvideCommand = None, ProvideCloser = Some p\<rparr>))
         \<lparr>modules := modules c\<rparr>"
proof (intro conjI)
  show "Modules (AddModule c m) =
          (case m of Func p \<Rightarrow> Modules c | Value v \<Rightarrow> Modules c @ [m])"
    by (cases m) (simp_all add: Modules_def modules_AddModule)
  show "closerProviders (AddModule c (Func p)) = closerProviders c @ [p]"
    by (simp add: closerProviders_AddModule)
  show "AddModule c (Func p) =
       (AddModule c (Value \<lparr>ProvideHttp = None, ProvideGrpc = None, ProvideCron = None,
           ProvideRunGroup = None, ProvideCommand = None, ProvideCloser = Some p\<rparr>))
         \<lparr>modules := modules c\<rparr>"
    by (simp add: AddModule_def)
qed

theorem AddModule_Modules_witness:
  "Modules (AddModule zero_Container module_A) = [module_A]
   \<and> Modules (AddModule zero_Container module_C) = []
   \<and> closerProviders (AddModule zero_Container module_C) = [emit (Closed ''C'')]"
  using AddModule_Modules [of zero_Container module_A]
    AddModule_Modules [of zero_Container module_C "emit (Closed ''C'')"]
  by (simp add: module_A_def module_C_def Modules_def zero_Container_def)

section \<open>Modules with several capabilities\<close>

text \<open>
  Claim C7. Each of the six tests of \<open>AddModule\<close> stands alone: a module that satisfies
  a capability has the callback of that capability appended to the sequence of that
  capability, whatever else it satisfies, and the \<open>Apply\<close> method of that capability
  calls it after the callbacks registered before. So a module that satisfies two
  capabilities is registered under both and called by both \<open>Apply\<close> methods.
\<close>

theorem capabilities_registered_independently:
  "(as_HttpProvider m = Some hp \<longrightarrow>
      httpProviders (AddModule c m) = httpProviders c @ [hp]
      \<and> ApplyRouter (AddModule c m) router = range_call (httpProviders c @ [hp]) router)
   \<and> (as_GrpcProvider m = Some gp \<longrightarrow>
      grpcProviders (AddModule c m) = grpcProviders c @ [gp]
      \<and> ApplyGRPCServer (AddModule c m) server = range_call (grpcProviders c @ [gp]) server)
   \<and> (as_CronProvider m = Some kp \<longrightarrow>
      cronProviders (AddModule c m) = cronProviders c @ [kp]
      \<and> ApplyCron (AddModule c m) crontab = range_call (cronProviders c @ [kp]) crontab)
   \<and> (as_RunProvider m = Some rp \<longrightarrow>
      runProviders (AddModule c m) = runProviders c @ [rp]
      \<and> ApplyRunGroup (AddModule c m) g = range_call (runProviders c @ [rp]) g)
   \<and> (as_CommandProvider m = Some mp \<longrightarrow>
      commandProviders (AddModule c m) = commandProviders c @ [mp]
      \<and> ApplyRootCommand (AddModule c m) command =
          range_call (commandProviders c @ [mp]) command)
   \<and> (as_CloserProvider m = Some xp \<longrightarrow>
      closerProviders (AddModule c m) = closerProviders c @ [xp])"
proof (intro conjI impI)
  assume "as_CloserProvider m = Some xp"
  then show "closerProviders (AddModule c m) = closerProviders c @ [xp]"
    by (cases m) (simp_all add: closerProviders_AddModule)
qed (simp_all add: httpProviders_AddModule grpcProviders_AddModule cronProviders_AddModule
    runProviders_AddModule commandProviders_AddModule ApplyRouter_def ApplyGRPCServer_def
    ApplyCron_def ApplyRunGroup_def ApplyRootCommand_def)

theorem capabilities_registered_independently_witness:
  "as_HttpProvider module_D = Some (\<lambda>router. emit (HttpProvided ''D'' router))
   \<and> as_CronProvider module_D = Some (\<lambda>crontab. emit (CronProvided ''D'' crontab))
   \<and> httpProviders (AddModule zero_Container module_D) =
        [\<lambda>router. emit (HttpProvided ''D'' router)]
   \<and> cronProviders (AddModule zero_Container module_D) =
        [\<lambda>crontab. emit (CronProvided ''D'' crontab)]
   \<and> ApplyRouter (AddModule zero_Container module_D) (Router 7) [] =
        Some [HttpProvided ''D'' (Router 7)]
   \<and> ApplyCron (AddModule zero_Container module_D) (Cron 9) [] =
        Some [CronProvided ''D'' (Cron 9)]"
proof -
  have h: "as_HttpProvider module_D = Some (\<lambda>router. emit (HttpProvided ''D'' router))"
    and k: "as_CronProvider module_D = Some (\<lambda>crontab. emit (CronProvided ''D'' crontab))"
    by (simp_all add: module_D_def)
  from capabilities_registered_independently
         [where m = module_D and c = zero_Container and router = "Router 7"
            and crontab = "Cron 9" and hp = "\<lambda>router. emit (HttpProvided ''D'' router)"
            and kp = "\<lambda>crontab. emit (CronProvided ''D'' crontab)"]
  show ?thesis
    using h k by (simp add: zero_Container_def emit_def)
qed

section \<open>Shutdown: the join\<close>

text \<open>
  Claim C3. In every run of \<open>Shutdown\<close> on a Container with \<open>K\<close> closers, no goroutine
  calls its closer twice; once \<open>Shutdown\<close> has returned, it has started one goroutine for each
  closer (goroutine \<open>j\<close> holding the \<open>j\<close>-th closer), every closer has been called, and
  every closer has returned: \<^verbatim>\<open>wg.Wait()\<close> lets \<open>Shutdown\<close> return only after all \<open>K\<close>
  calls have come back. The closers run concurrently: there is a run in which all \<open>K\<close>
  of them are inside their call at the same time. No order is fixed between them: for
  any two orders \<open>xs\<close> and \<open>ys\<close> of the \<open>K\<close> closers there is a run to the return of
  \<open>Shutdown\<close> in which they are called in the order \<open>xs\<close> and return in the order \<open>ys\<close>.
\<close>

theorem Shutdown_joins_every_closer:
  "(\<forall>s. Shutdown_reaches c s \<longrightarrow>
       distinct (invoked s) \<and>
       (pc s = Returned \<longrightarrow>
          map fst (tasks s) = closerProviders c
          \<and> set (invoked s) = {..<length (closerProviders c)}
          \<and> distinct (returned s)
          \<and> set (returned s) = {..<length (closerProviders c)}))
   \<and> (\<exists>s. Shutdown_reaches c s \<and> length (tasks s) = length (closerProviders c)
          \<and> (\<forall>j < length (tasks s). snd (tasks s ! j) = Running))
   \<and> (\<forall>xs ys. distinct xs \<and> set xs = {..<length (closerProviders c)}
          \<and> distinct ys \<and> set ys = {..<length (closerProviders c)} \<longrightarrow>
          (\<exists>s. Shutdown_reaches c s \<and> pc s = Returned
             \<and> invoked s = xs \<and> returned s = ys))"
proof (intro conjI allI impI)
  fix s
  assume "Shutdown_reaches c s"
  then have inv: "Shutdown_inv c s" by (rule Shutdown_reaches_inv)
  then show "distinct (invoked s)" by (simp add: Shutdown_inv_def)
  assume "pc s = Returned"
  with inv show "map fst (tasks s) = closerProviders c"
    and "set (invoked s) = {..<length (closerProviders c)}"
    and "distinct (returned s)"
    and "set (returned s) = {..<length (closerProviders c)}"
    by (rule Shutdown_inv_Returned)+
next
  have "distinct [0..<length (closerProviders c)]"
    and "set [0..<length (closerProviders c)] = {..<length (closerProviders c)}"
    by (simp_all add: atLeast0LessThan)
  then show "\<exists>s. Shutdown_reaches c s \<and> length (tasks s) = length (closerProviders c)
          \<and> (\<forall>j < length (tasks s). snd (tasks s ! j) = Running)"
    by (rule all_Running)
next
  fix xs ys
  let ?n = "length (closerProviders c)"
  let ?s = "state_of c Returned 0 ?n (\<lambda>k. Exited) xs ys"
  assume a: "distinct xs \<and> set xs = {..<?n} \<and> distinct ys \<and> set ys = {..<?n}"
  then have "run (schedule ?n xs ys ys) (Shutdown_init c) = Some ?s"
    by (intro run_schedule) simp_all
  then have "Shutdown_reaches c ?s"
    unfolding Shutdown_reaches_def by blast
  moreover have "pc ?s = Returned" "invoked ?s = xs" "returned ?s = ys"
    by (simp_all add: state_of_def)
  ultimately show "\<exists>s. Shutdown_reaches c s \<and> pc s = Returned
             \<and> invoked s = xs \<and> returned s = ys"
    by blast
qed

theorem Shutdown_joins_every_closer_witness:
  "Shutdown_reaches (AddModules zero_Container [Func Some, Func Some] :: unit Container)
     (state_of (AddModules zero_Container [Func Some, Func Some]) Returned 0 2
        (\<lambda>k. Exited) [1, 0] [0, 1])
   \<and> pc (state_of (AddModules zero_Container [Func Some, Func Some] :: unit Container)
          Returned 0 2 (\<lambda>k. Exited) [1, 0] [0, 1]) = Returned
   \<and> map fst (tasks (state_of (AddModules zero_Container [Func Some, Func Some] :: unit Container)
          Returned 0 2 (\<lambda>k. Exited) [1, 0] [0, 1])) = [Some, Some]
   \<and> set (invoked (state_of (AddModules zero_Container [Func Some, Func Some] :: unit Container)
          Returned 0 2 (\<lambda>k. Exited) [1, 0] [0, 1])) = {0, 1}
   \<and> set (returned (state_of (AddModules zero_Container [Func Some, Func Some] :: unit Container)
          Returned 0 2 (\<lambda>k. Exited) [1, 0] [0, 1])) = {0, 1}"
proof -
  let ?c = "AddModules zero_Container [Func Some, Func Some] :: unit Container"
  let ?s = "state_of ?c Returned 0 2 (\<lambda>k. Exited) [1, 0] [0, 1]"
  have cl: "closerProviders ?c = [Some, Some]"
    by (simp add: AddModules_def AddModule_Func zero_Container_def)
  have "run [Add, Go, Add, Go, Call 1, Call 0, Return 0, Return 1, Done 1, Done 0, Wait]
          (Shutdown_init ?c) = Some ?s"
    by (simp add: Shutdown_init_def loop_head_def state_of_def cl numeral_2_eq_2)
  then have reach: "Shutdown_reaches ?c ?s"
    unfolding Shutdown_reaches_def by blast
  have p: "pc ?s = Returned"
    by (simp add: state_of_def)
  have lt: "{..<Suc (Suc 0)} = {0, Suc 0}"
    by auto
  from Shutdown_joins_every_closer [of ?c, THEN conjunct1, rule_format, OF reach]
  show ?thesis
    using reach p by (simp add: cl lt)
qed

section \<open>What the dispatch methods leave of the Container\<close>

lemma AddModule_neq: "AddModule c m \<noteq> c"
proof (cases m)
  case (Func p)
  have "length (closerProviders (AddModule c m)) = Suc (length (closerProviders c))"
    by (simp add: Func closerProviders_AddModule)
  then show ?thesis by auto
next
  case (Value v)
  have "length (modules (AddModule c m)) = Suc (length (modules c))"
    by (simp add: Value modules_AddModule)
  then show ?thesis by auto
qed

text \<open>
  Claim C8, as the claim states it, fails: a callback can hold the pointer to the
  Container and register a module on it while \<open>ApplyRouter\<close> runs. Here the
  \<open>ProvideHttp\<close> of the one registered module calls \<open>AddModule\<close> with a bare
  \<^verbatim>\<open>func()\<close>; \<open>ApplyRouter\<close> returns, and the closer sequence of the Container is not
  what it was before the call.
\<close>

theorem callback_registers_during_Apply:
  "ApplyRouter_h example_code (Router 7) heap_registering =
     Normal (AddModule_heap (Func_h 2) heap_registering)
   \<and> closerProviders_h (container heap_registering) = []
   \<and> closerProviders_h (container (after (ApplyRouter_h example_code (Router 7) heap_registering))) =
       [2]
   \<and> container (after (ApplyRouter_h example_code (Router 7) heap_registering)) \<noteq>
       container heap_registering"
proof -
  have a: "ApplyRouter_h example_code (Router 7) heap_registering =
     Normal (AddModule_heap (Func_h 2) heap_registering)"
    by (simp add: ApplyRouter_h_def heap_registering_def http_module_h_def zero_Container_h_def
        example_code_def)
  have b: "closerProviders_h (container heap_registering) = []"
    by (simp add: heap_registering_def http_module_h_def zero_Container_h_def)
  have c: "closerProviders_h (container (AddModule_heap (Func_h 2) heap_registering)) = [2]"
    by (simp add: AddModule_heap_def b)
  have "container (AddModule_heap (Func_h 2) heap_registering) \<noteq> container heap_registering"
    using b c by auto
  with a b c show ?thesis by simp
qed

text \<open>
  Claim C8, amended. The dispatch methods write nothing to the Container themselves.
  After \<open>ApplyRouter\<close>, \<open>ApplyGRPCServer\<close>, \<open>ApplyCron\<close>, \<open>ApplyRootCommand\<close> or
  \<open>ApplyRunGroup\<close> the Container is what it was before the call whenever each callback
  of the sequence the method runs over leaves the Container as it finds it, and that
  whether the method returns or a callback panics; \<open>Modules\<close> leaves the whole state as
  it was; in every state that a run of \<open>Shutdown\<close> reaches the receiver is what it
  was (the steps of \<open>Shutdown\<close> are its own statements, the closers being called and
  returning; what a closer does is not among them); and \<open>AddModule\<close> always changes the
  Container.
\<close>

theorem dispatch_writes_nothing:
  "((\<forall>p \<in> set (httpProviders_h (container s)).
       \<forall>h t. container (after (code p h t)) = container t) \<longrightarrow>
      container (after (ApplyRouter_h code router s)) = container s)
   \<and> ((\<forall>p \<in> set (grpcProviders_h (container s)).
       \<forall>h t. container (after (code p h t)) = container t) \<longrightarrow>
      container (after (ApplyGRPCServer_h code server s)) = container s)
   \<and> ((\<forall>p \<in> set (cronProviders_h (container s)).
       \<forall>h t. container (after (code p h t)) = container t) \<longrightarrow>
      container (after (ApplyCron_h code crontab s)) = container s)
   \<and> ((\<forall>p \<in> set (commandProviders_h (container s)).
       \<forall>h t. container (after (code p h t)) = container t) \<longrightarrow>
      container (after (ApplyRootCommand_h code command s)) = container s)
   \<and> ((\<forall>p \<in> set (runProviders_h (container s)).
       \<forall>h t. container (after (code p h t)) = container t) \<longrightarrow>
      container (after (ApplyRunGroup_h code g s)) = container s)
   \<and> snd (Modules_h s) = s
   \<and> (Shutdown_reaches c st \<longrightarrow> receiver st = c)
   \<and> container (AddModule_heap m s) \<noteq> container s
   \<and> AddModule c m' \<noteq> c"
proof (intro conjI impI)
  assume "Shutdown_reaches c st"
  then have "Shutdown_inv c st" by (rule Shutdown_reaches_inv)
  then show "receiver st = c" by (simp add: Shutdown_inv_def)
next
  show "snd (Modules_h s) = s" by (simp add: Modules_h_def)
  show "container (AddModule_heap m s) \<noteq> container s"
    by (simp add: AddModule_heap_def AddModule_h_neq)
  show "AddModule c m' \<noteq> c" by (rule AddModule_neq)
qed (simp_all only: ApplyRouter_h_def ApplyGRPCServer_h_def ApplyCron_h_def
    ApplyRootCommand_h_def ApplyRunGroup_h_def range_call_h_container)

theorem dispatch_writes_nothing_witness:
  "httpProviders_h (container heap_logging) = [1]
   \<and> (\<forall>h t. container (after (example_code 1 h t)) = container t)
   \<and> ApplyRouter_h example_code (Router 7) heap_logging =
       Normal (heap_logging\<lparr>outside := [Router 7]\<rparr>)
   \<and> container (after (ApplyRouter_h example_code (Router 7) heap_logging)) =
       container heap_logging
   \<and> ApplyRouter_h example_code (Router 0) heap_logging = Panicked heap_logging
   \<and> container (after (ApplyRouter_h example_code (Router 0) heap_logging)) =
       container heap_logging
   \<and> Shutdown_reaches (AddModule zero_Container module_A)
        (state_of (AddModule zero_Container module_A) Returned 0 1 (\<lambda>k. Exited) [0] [0])
   \<and> receiver (state_of (AddModule zero_Container module_A) Returned 0 1 (\<lambda>k. Exited) [0] [0]) =
        AddModule zero_Container module_A
   \<and> AddModule zero_Container module_A \<noteq> zero_Container"
proof -
  let ?c = "AddModule zero_Container module_A"
  let ?s = "state_of ?c Returned 0 1 (\<lambda>k. Exited) [0] [0]"
  have hp: "httpProviders_h (container heap_logging) = [1]"
    by (simp add: heap_logging_def http_module_h_def zero_Container_h_def)
  have keep: "\<forall>h t. container (after (example_code 1 h t)) = container t"
    by (simp add: example_code_def split: host.split Router.split)
  have hyp: "\<forall>p \<in> set (httpProviders_h (container heap_logging)).
       \<forall>h t. container (after (example_code p h t)) = container t"
    using keep by (simp add: hp)
  have r7: "ApplyRouter_h example_code (Router 7) heap_logging =
       Normal (heap_logging\<lparr>outside := [Router 7]\<rparr>)"
    by (simp add: ApplyRouter_h_def hp example_code_def) (simp add: heap_logging_def)
  have r0: "ApplyRouter_h example_code (Router 0) heap_logging = Panicked heap_logging"
    by (simp add: ApplyRouter_h_def hp example_code_def)
  have cl: "closerProviders ?c = [emit (Closed ''A'')]"
    by (simp add: closerProviders_AddModule module_A_def zero_Container_def)
  have "run [Add, Go, Call 0, Return 0, Done 0, Wait] (Shutdown_init ?c) = Some ?s"
    by (simp add: Shutdown_init_def loop_head_def state_of_def cl)
  then have reach: "Shutdown_reaches ?c ?s"
    unfolding Shutdown_reaches_def by blast
  note t7 = dispatch_writes_nothing
      [where code = example_code and s = heap_logging and router = "Router 7",
       THEN conjunct1, THEN mp, OF hyp]
  note t0 = dispatch_writes_nothing
      [where code = example_code and s = heap_logging and router = "Router 0",
       THEN conjunct1, THEN mp, OF hyp]
  note ts = dispatch_writes_nothing
      [where c = ?c and st = ?s, THEN conjunct2, THEN conjunct2, THEN conjunct2,
       THEN conjunct2, THEN conjunct2, THEN conjunct2, THEN conjunct1, THEN mp, OF reach]
  note tz = dispatch_writes_nothing
      [where c = zero_Container and m' = module_A, THEN conjunct2, THEN conjunct2,
       THEN conjunct2, THEN conjunct2, THEN conjunct2, THEN conjunct2, THEN conjunct2,
       THEN conjunct2]
  from t7 t0 ts tz show ?thesis
    using hp keep r7 r0 reach by simp
qed

section \<open>Registering a module twice\<close>

text \<open>
  Claim C9. \<open>AddModule\<close> does not look for a module it already holds. After the same
  module is registered twice, each sequence of a capability it satisfies ends with its
  callback twice, so the \<open>Apply\<close> method of that capability calls it twice in a row
  after the callbacks registered before; and its closer (the module itself when it is
  a bare \<^verbatim>\<open>func()\<close>) stands twice at the end of \<open>closerProviders\<close>, so every run of
  \<open>Shutdown\<close> that returns has started two goroutines with it and called it in both.
\<close>

theorem registering_twice_runs_twice:
  "(as_HttpProvider m = Some hp \<longrightarrow>
      httpProviders (AddModules c [m, m]) = httpProviders c @ [hp, hp]
      \<and> ApplyRouter (AddModules c [m, m]) router = range_call (httpProviders c @ [hp, hp]) router)
   \<and> (as_GrpcProvider m = Some gp \<longrightarrow>
      grpcProviders (AddModules c [m, m]) = grpcProviders c @ [gp, gp]
      \<and> ApplyGRPCServer (AddModules c [m, m]) server =
          range_call (grpcProviders c @ [gp, gp]) server)
   \<and> (as_CronProvider m = Some kp \<longrightarrow>
      cronProviders (AddModules c [m, m]) = cronProviders c @ [kp, kp]
      \<and> ApplyCron (AddModules c [m, m]) crontab = range_call (cronProviders c @ [kp, kp]) crontab)
   \<and> (as_RunProvider m = Some rp \<longrightarrow>
      runProviders (AddModules c [m, m]) = runProviders c @ [rp, rp]
      \<and> ApplyRunGroup (AddModules c [m, m]) g = range_call (runProviders c @ [rp, rp]) g)
   \<and> (as_CommandProvider m = Some mp \<longrightarrow>
      commandProviders (AddModules c [m, m]) = commandProviders c @ [mp, mp]
      \<and> ApplyRootCommand (AddModules c [m, m]) command =
          range_call (commandProviders c @ [mp, mp]) command)
   \<and> (as_func m = Some xp \<or> as_CloserProvider m = Some xp \<longrightarrow>
      closerProviders (AddModules c [m, m]) = closerProviders c @ [xp, xp]
      \<and> (\<forall>s. Shutdown_reaches (AddModules c [m, m]) s \<and> pc s = Returned \<longrightarrow>
            map fst (tasks s) = closerProviders c @ [xp, xp]
            \<and> distinct (invoked s)
            \<and> set (invoked s) = {..<length (closerProviders c) + 2}))"
proof (intro conjI impI allI)
  assume "as_func m = Some xp \<or> as_CloserProvider m = Some xp"
  then show cl: "closerProviders (AddModules c [m, m]) = closerProviders c @ [xp, xp]"
    by (cases m) (auto simp: AddModules_def closerProviders_AddModule)
  fix s
  assume "Shutdown_reaches (AddModules c [m, m]) s \<and> pc s = Returned"
  then have inv: "Shutdown_inv (AddModules c [m, m]) s" and p: "pc s = Returned"
    by (simp_all add: Shutdown_reaches_inv)
  show "map fst (tasks s) = closerProviders c @ [xp, xp]"
    using Shutdown_inv_Returned(1) [OF inv p] cl by simp
  show "distinct (invoked s)"
    using Shutdown_inv_Returned(2) [OF inv p] .
  show "set (invoked s) = {..<length (closerProviders c) + 2}"
    using Shutdown_inv_Returned(3) [OF inv p] cl by simp
qed (simp_all add: AddModules_def httpProviders_AddModule grpcProviders_AddModule
    cronProviders_AddModule runProviders_AddModule commandProviders_AddModule ApplyRouter_def
    ApplyGRPCServer_def ApplyCron_def ApplyRunGroup_def ApplyRootCommand_def)

theorem registering_twice_runs_twice_witness:
  "as_HttpProvider module_A = Some (\<lambda>router. emit (HttpProvided ''A'' router))
   \<and> as_CloserProvider module_A = Some (emit (Closed ''A''))
   \<and> ApplyRouter (AddModules zero_Container [module_A, module_A]) (Router 7) [] =
        Some [HttpProvided ''A'' (Router 7), HttpProvided ''A'' (Router 7)]
   \<and> closerProviders (AddModules zero_Container [module_A, module_A]) =
        [emit (Closed ''A''), emit (Closed ''A'')]
   \<and> Shutdown_reaches (AddModules zero_Container [module_A, module_A])
        (state_of (AddModules zero_Container [module_A, module_A]) Returned 0 2
           (\<lambda>k. Exited) [0, 1] [1, 0])
   \<and> pc (state_of (AddModules zero_Container [module_A, module_A]) Returned 0 2
           (\<lambda>k. Exited) [0, 1] [1, 0]) = Returned
   \<and> map fst (tasks (state_of (AddModules zero_Container [module_A, module_A]) Returned 0 2
           (\<lambda>k. Exited) [0, 1] [1, 0])) = [emit (Closed ''A''), emit (Closed ''A'')]
   \<and> set (invoked (state_of (AddModules zero_Container [module_A, module_A]) Returned 0 2
           (\<lambda>k. Exited) [0, 1] [1, 0])) = {0, 1}"
proof -
  let ?c = "AddModules zero_Container [module_A, module_A]"
  let ?s = "state_of ?c Returned 0 2 (\<lambda>k. Exited) [0, 1] [1, 0]"
  have h: "as_HttpProvider module_A = Some (\<lambda>router. emit (HttpProvided ''A'' router))"
    and x: "as_CloserProvider module_A = Some (emit (Closed ''A''))"
    by (simp_all add: module_A_def)
  have cl: "closerProviders ?c = [emit (Closed ''A''), emit (Closed ''A'')]"
    by (simp add: AddModules_def closerProviders_AddModule module_A_def zero_Container_def)
  have "run [Add, Go, Call 0, Add, Go, Call 1, Return 1, Done 1, Return 0, Done 0, Wait]
          (Shutdown_init ?c) = Some ?s"
    by (simp add: Shutdown_init_def loop_head_def state_of_def cl numeral_2_eq_2)
  then have reach: "Shutdown_reaches ?c ?s"
    unfolding Shutdown_reaches_def by blast
  have p: "pc ?s = Returned"
    by (simp add: state_of_def)
  have lt: "{..<Suc (Suc 0)} = {0, Suc 0}"
    by auto
  from registering_twice_runs_twice
         [where m = module_A and c = zero_Container and router = "Router 7"
            and hp = "\<lambda>router. emit (HttpProvided ''A'' router)" and xp = "emit (Closed ''A'')",
          THEN conjunct1, rule_format, OF h]
       registering_twice_runs_twice
         [where m = module_A and c = zero_Container and xp = "emit (Closed ''A'')",
          THEN conjunct2, THEN conjunct2, THEN conjunct2, THEN conjunct2, THEN conjunct2,
          rule_format, OF disjI2, OF x]
  show ?thesis
    using h x reach p by (simp add: zero_Container_def emit_def lt)
qed

section \<open>The fallback endpoint of otetcd\<close>

text \<open>
  Claim C10. When the configuration has no entry \<^verbatim>\<open>default\<close> for etcd and the variable
  \<^verbatim>\<open>ETCD_ADDR\<close> is not set, the builder makes the client for \<^verbatim>\<open>default\<close> from a
  configuration whose only endpoint is \<^verbatim>\<open>127.0.0.1:6379\<close> (handed to the interceptor
  first, when there is one), while the entry \<^verbatim>\<open>default\<close> of the configuration that
  \<open>provideConfig\<close> exports has the endpoint \<^verbatim>\<open>127.0.0.1:2379\<close>; the two differ.
\<close>

theorem etcd_fallback_endpoint:
  "(fst (factoryIn.Conf p ''etcd'') ''default'' = None \<and> e ''ETCD_ADDR'' = None \<longrightarrow>
      (\<exists>co. Config.Endpoints co = [''127.0.0.1:6379'']
         \<and> provideFactory_build p e New ''default'' =
             Inr \<lparr>Conn = ClientV3 (fst (New (case factoryIn.Interceptor p of
                                                  None \<Rightarrow> co | Some f \<Rightarrow> f ''default'' co))),
                  Closer = CloseClientV3 (fst (New (case factoryIn.Interceptor p of
                                                  None \<Rightarrow> co | Some f \<Rightarrow> f ''default'' co)))\<rparr>))
   \<and> map_option Option.Endpoints
         (Option.bind (Data (hd provideConfig) ''etcd'') (\<lambda>d. d ''default'')) =
       Some [''127.0.0.1:2379'']
   \<and> [''127.0.0.1:6379''] \<noteq> [''127.0.0.1:2379'']"
proof (intro conjI impI)
  assume "fst (factoryIn.Conf p ''etcd'') ''default'' = None \<and> e ''ETCD_ADDR'' = None"
  then show "\<exists>co. Config.Endpoints co = [''127.0.0.1:6379'']
         \<and> provideFactory_build p e New ''default'' =
             Inr \<lparr>Conn = ClientV3 (fst (New (case factoryIn.Interceptor p of
                                                  None \<Rightarrow> co | Some f \<Rightarrow> f ''default'' co))),
                  Closer = CloseClientV3 (fst (New (case factoryIn.Interceptor p of
                                                  None \<Rightarrow> co | Some f \<Rightarrow> f ''default'' co)))\<rparr>"
    using provideFactory_build_fallback [of p e New] by blast
next
  show "map_option Option.Endpoints
         (Option.bind (Data (hd provideConfig) ''etcd'') (\<lambda>d. d ''default'')) =
       Some [''127.0.0.1:2379'']"
    by (simp add: provideConfig_def)
  show "[''127.0.0.1:6379''] \<noteq> [''127.0.0.1:2379'']"
    by simp
qed

theorem etcd_fallback_endpoint_witness:
  "fst (factoryIn.Conf etcd_unconfigured ''etcd'') ''default'' = None
   \<and> (Map.empty :: env) ''ETCD_ADDR'' = None
   \<and> map_option (Config.Endpoints :: unit Config \<Rightarrow> string list)
        (fst (clientv3_New (\<lparr>Endpoints = [''127.0.0.1:6379''], AutoSyncInterval = 0,
           DialTimeout = 0, DialKeepAliveTime = 0, DialKeepAliveTimeout = 0,
           MaxCallSendMsgSize = 0, MaxCallRecvMsgSize = 0, TLS = None, Username = [],
           Password = [], RejectOldCluster = False, DialOptions = [], Context = None,
           LogConfig = None, PermitWithoutStream = False\<rparr>))) = Some [''127.0.0.1:6379'']
   \<and> (provideFactory_build etcd_unconfigured Map.empty clientv3_New ''default''
         :: error + unit Config Pair) =
       Inr \<lparr>Conn = ClientV3 (Some \<lparr>Endpoints = [''127.0.0.1:6379''], AutoSyncInterval = 0,
           DialTimeout = 0, DialKeepAliveTime = 0, DialKeepAliveTimeout = 0,
           MaxCallSendMsgSize = 0, MaxCallRecvMsgSize = 0, TLS = None, Username = [],
           Password = [], RejectOldCluster = False, DialOptions = [], Context = None,
           LogConfig = None, PermitWithoutStream = False\<rparr>),
         Closer = CloseClientV3 (Some \<lparr>Endpoints = [''127.0.0.1:6379''], AutoSyncInterval = 0,
           DialTimeout = 0, DialKeepAliveTime = 0, DialKeepAliveTimeout = 0,
           MaxCallSendMsgSize = 0, MaxCallRecvMsgSize = 0, TLS = None, Username = [],
           Password = [], RejectOldCluster = False, DialOptions = [], Context = None,
           LogConfig = None, PermitWithoutStream = False\<rparr>)\<rparr>"
proof -
  have a: "fst (factoryIn.Conf etcd_unconfigured ''etcd'') ''default'' = None"
    by (simp add: etcd_unconfigured_def no_entries_def)
  have b: "(Map.empty :: env) ''ETCD_ADDR'' = None"
    by simp
  from etcd_fallback_endpoint
         [where p = etcd_unconfigured and e = Map.empty and New = clientv3_New,
          THEN conjunct1, rule_format, OF conjI, OF a b]
  obtain co :: "unit Config" where "Config.Endpoints co = [''127.0.0.1:6379'']"
    by blast
  then show ?thesis
    using a b
    by (simp add: provideFactory_build_def Let_def Getenv_def Option_Endpoints_def
        etcd_unconfigured_def no_entries_def clientv3_New_def)
qed

section \<open>A name without an entry in the configuration\<close>

text \<open>
  Claim C4 does not hold of the builder of otredis. Without an entry \<^verbatim>\<open>default\<close> in the
  configuration, the builder of otredis returns the error that the configuration
  \<^verbatim>\<open>default\<close> is not valid, \<^verbatim>\<open>Make("default")\<close> returns that error with a nil client, and
  \<open>ProvideRedis\<close>, which makes that call itself, drops the error and provides the nil
  client. The builder of otetcd, on the same input, falls back as the claim says: to
  the endpoint \<^verbatim>\<open>127.0.0.1:6379\<close> when \<^verbatim>\<open>ETCD_ADDR\<close> is not set, and to the value of
  \<^verbatim>\<open>ETCD_ADDR\<close> when it is, and \<^verbatim>\<open>Make("default")\<close> returns a client with no error.
\<close>

theorem redis_default_has_no_fallback:
  "(ProvideRedis_build redis_unconfigured (\<lambda>opts. opts) (\<lambda>h client. client) ''default''
      :: error + UniversalOptions Pair) =
     Inl (Error ''redis configuration default not valid'')
   \<and> otredis_Make
        (generic_Make (ProvideRedis_build redis_unconfigured (\<lambda>opts. opts) (\<lambda>h client. client)
           :: string \<Rightarrow> error + UniversalOptions Pair))
        ''default'' Map.empty =
       (Ok (None, Some (Error ''redis configuration default not valid'')), Map.empty)
   \<and> (ProvideRedis redis_unconfigured (\<lambda>opts. opts) (\<lambda>h client. client)
         :: (UniversalOptions option \<times> (string \<rightharpoonup> UniversalOptions Pair)) result) =
       Ok (None, Map.empty)
   \<and> (case fst (otetcd_Make
                   (generic_Make (provideFactory_build etcd_unconfigured Map.empty clientv3_New
                      :: string \<Rightarrow> error + unit Config Pair))
                   ''default'' Map.empty) of
         Ok (Some co, None) \<Rightarrow> Config.Endpoints co
       | _ \<Rightarrow> []) = [''127.0.0.1:6379'']
   \<and> (case fst (otetcd_Make
                   (generic_Make (provideFactory_build etcd_unconfigured env_ETCD_ADDR clientv3_New
                      :: string \<Rightarrow> error + unit Config Pair))
                   ''default'' Map.empty) of
         Ok (Some co, None) \<Rightarrow> Config.Endpoints co
       | _ \<Rightarrow> []) = [''10.0.0.5:2379'']"
proof (intro conjI)
  show "(ProvideRedis_build redis_unconfigured (\<lambda>opts. opts) (\<lambda>h client. client) ''default''
      :: error + UniversalOptions Pair) =
     Inl (Error ''redis configuration default not valid'')"
    by (simp add: ProvideRedis_build_def redis_unconfigured_def no_entries_def)
  show "otredis_Make
        (generic_Make (ProvideRedis_build redis_unconfigured (\<lambda>opts. opts) (\<lambda>h client. client)
           :: string \<Rightarrow> error + UniversalOptions Pair))
        ''default'' Map.empty =
       (Ok (None, Some (Error ''redis configuration default not valid'')), Map.empty)"
    by (simp add: ProvideRedis_build_def redis_unconfigured_def no_entries_def generic_Make_def
        otredis_Make_def)
  show "(ProvideRedis redis_unconfigured (\<lambda>opts. opts) (\<lambda>h client. client)
         :: (UniversalOptions option \<times> (string \<rightharpoonup> UniversalOptions Pair)) result) =
       Ok (None, Map.empty)"
    by (simp add: ProvideRedis_def otredis_Make_def generic_Make_def ProvideRedis_build_def
        redis_unconfigured_def no_entries_def)
  show "(case fst (otetcd_Make
                   (generic_Make (provideFactory_build etcd_unconfigured Map.empty clientv3_New
                      :: string \<Rightarrow> error + unit Config Pair))
                   ''default'' Map.empty) of
         Ok (Some co, None) \<Rightarrow> Config.Endpoints co
       | _ \<Rightarrow> []) = [''127.0.0.1:6379'']"
    by (simp add: otetcd_Make_def generic_Make_def provideFactory_build_def Let_def Getenv_def
        Option_Endpoints_def etcd_unconfigured_def no_entries_def clientv3_New_def)
  show "(case fst (otetcd_Make
                   (generic_Make (provideFactory_build etcd_unconfigured env_ETCD_ADDR clientv3_New
                      :: string \<Rightarrow> error + unit Config Pair))
                   ''default'' Map.empty) of
         Ok (Some co, None) \<Rightarrow> Config.Endpoints co
       | _ \<Rightarrow> []) = [''10.0.0.5:2379'']"
    by (simp add: otetcd_Make_def generic_Make_def provideFactory_build_def Let_def Getenv_def
        Option_Endpoints_def etcd_unconfigured_def no_entries_def clientv3_New_def
        env_ETCD_ADDR_def)
qed

section \<open>A failure to construct the client\<close>

lemma provideFactory_build_only_error:
  assumes "provideFactory_build p e New name = Inl err"
  shows "err = Error (''etcd configuration '' @ name @ '' not valid'')"
  using assms
  by (simp add: provideFactory_build_def Let_def split: option.splits if_splits)

text \<open>
  Claim C5 does not hold of the builder of otetcd. With the entry \<^verbatim>\<open>default\<close> configured
  without endpoints, \<^verbatim>\<open>clientv3.New\<close> returns a nil client and an error; the builder
  drops that error and returns a pair with the nil client and no error, and
  \<^verbatim>\<open>Make("default")\<close> returns a nil client with a nil error and memoizes the pair. The
  only error the builder ever returns is the one for a name without an entry. (In
  otredis the constructor returns no error; there \<open>ProvideRedis\<close> drops the error of
  its own call \<^verbatim>\<open>Make("default")\<close> and provides a nil client.)
\<close>

theorem etcd_New_error_dropped:
  "clientv3_New (\<lparr>Endpoints = [], AutoSyncInterval = 0, DialTimeout = 0,
      DialKeepAliveTime = 0, DialKeepAliveTimeout = 0, MaxCallSendMsgSize = 0,
      MaxCallRecvMsgSize = 0, TLS = None, Username = [], Password = [],
      RejectOldCluster = False, DialOptions = [], Context = None, LogConfig = None,
      PermitWithoutStream = False\<rparr> :: unit Config) =
     (None, Some (Error ''etcdclient: no available endpoints''))
   \<and> (provideFactory_build etcd_no_endpoints Map.empty clientv3_New ''default''
         :: error + unit Config Pair) =
       Inr \<lparr>Conn = ClientV3 None, Closer = CloseClientV3 None\<rparr>
   \<and> otetcd_Make
        (generic_Make (provideFactory_build etcd_no_endpoints Map.empty clientv3_New
           :: string \<Rightarrow> error + unit Config Pair)) ''default'' Map.empty =
       (Ok (None, None),
        [''default'' \<mapsto> \<lparr>Conn = ClientV3 None, Closer = CloseClientV3 None\<rparr>])
   \<and> (ProvideRedis redis_unconfigured (\<lambda>opts. opts) (\<lambda>h client. client)
         :: (UniversalOptions option \<times> (string \<rightharpoonup> UniversalOptions Pair)) result) =
       Ok (None, Map.empty)"
proof (intro conjI)
  show b: "(provideFactory_build etcd_no_endpoints Map.empty clientv3_New ''default''
         :: error + unit Config Pair) =
       Inr \<lparr>Conn = ClientV3 None, Closer = CloseClientV3 None\<rparr>"
    by (simp add: provideFactory_build_def Let_def etcd_no_endpoints_def Option_Endpoints_def
        clientv3_New_def)
  show "otetcd_Make
        (generic_Make (provideFactory_build etcd_no_endpoints Map.empty clientv3_New
           :: string \<Rightarrow> error + unit Config Pair)) ''default'' Map.empty =
       (Ok (None, None),
        [''default'' \<mapsto> \<lparr>Conn = ClientV3 None, Closer = CloseClientV3 None\<rparr>])"
    by (simp add: otetcd_Make_def generic_Make_def b)
  show "(ProvideRedis redis_unconfigured (\<lambda>opts. opts) (\<lambda>h client. client)
         :: (UniversalOptions option \<times> (string \<rightharpoonup> UniversalOptions Pair)) result) =
       Ok (None, Map.empty)"
    by (simp add: ProvideRedis_def otredis_Make_def generic_Make_def ProvideRedis_build_def
        redis_unconfigured_def no_entries_def)
qed (simp add: clientv3_New_def)

section \<open>The typed factories\<close>

text \<open>
  Claim C6, as the claim states it, fails: when the generic factory returns no error
  and an instance of another dynamic type, or the nil interface, the type assertion of
  the typed \<open>Make\<close> panics; no error is returned.
\<close>

theorem mismatch_panics:
  "otetcd_Make (\<lambda>name s. ((OtherType ''string'' :: unit any, None), s)) ''default'' () =
     (Panic, ())
   \<and> otredis_Make (\<lambda>name s. ((OtherType ''string'' :: unit any, None), s)) ''default'' () =
     (Panic, ())
   \<and> otetcd_Make (\<lambda>name s. ((NilInterface :: unit any, None), s)) ''default'' () =
     (Panic, ())"
  by (simp add: otetcd_Make_def otredis_Make_def)

text \<open>
  Claim C6, amended. When the generic factory returns an error, the typed \<open>Make\<close> of
  otetcd and of otredis return that error with a nil instance. When it returns no
  error and an instance of the expected type, they return that instance and no error.
  When it returns no error and an instance of any other dynamic type, they panic.
\<close>

theorem typed_Make_narrows:
  "(Factory_Make name s = ((v, Some err), s') \<longrightarrow>
      otetcd_Make Factory_Make name s = (Ok (None, Some err), s')
      \<and> otredis_Make Factory_Make name s = (Ok (None, Some err), s'))
   \<and> (Factory_Make name s = ((ClientV3 c, None), s') \<longrightarrow>
      otetcd_Make Factory_Make name s = (Ok (c, None), s'))
   \<and> (Factory_Make name s = ((Universal r, None), s') \<longrightarrow>
      otredis_Make Factory_Make name s = (Ok (Some r, None), s'))
   \<and> (Factory_Make name s = ((v, None), s') \<and> (\<forall>c. v \<noteq> ClientV3 c) \<longrightarrow>
      otetcd_Make Factory_Make name s = (Panic, s'))
   \<and> (Factory_Make name s = ((v, None), s') \<and> (\<forall>r. v \<noteq> Universal r) \<longrightarrow>
      otredis_Make Factory_Make name s = (Panic, s'))"
  by (intro conjI impI)
    (simp_all add: otetcd_Make_error otredis_Make_error otetcd_Make_ClientV3
      otredis_Make_Universal otetcd_Make_mismatch otredis_Make_mismatch)

theorem typed_Make_narrows_witness:
  "otetcd_Make (\<lambda>name s. ((NilInterface :: unit any, Some (Error ''no entry'')), s))
       ''a'' () = (Ok (None, Some (Error ''no entry'')), ())
   \<and> otredis_Make (\<lambda>name s. ((NilInterface :: unit any, Some (Error ''no entry'')), s))
       ''a'' () = (Ok (None, Some (Error ''no entry'')), ())
   \<and> otetcd_Make (\<lambda>name s. ((ClientV3 (Some ()), None), s)) ''a'' () =
       (Ok (Some (), None), ())
   \<and> otredis_Make (\<lambda>name s. ((Universal (), None), s)) ''a'' () =
       (Ok (Some (), None), ())
   \<and> otetcd_Make (\<lambda>name s. ((Universal (), None), s)) ''a'' () = (Panic, ())
   \<and> otredis_Make (\<lambda>name s. ((ClientV3 (Some ()), None), s)) ''a'' () = (Panic, ())"
  using typed_Make_narrows
      [where Factory_Make = "\<lambda>name s. ((NilInterface :: unit any, Some (Error ''no entry'')), s)"
         and name = "''a''" and s = "()" and s' = "()" and v = NilInterface
         and err = "Error ''no entry''"]
    typed_Make_narrows
      [where Factory_Make = "\<lambda>name s. ((ClientV3 (Some ()), None), s)"
         and name = "''a''" and s = "()" and s' = "()" and v = "ClientV3 (Some ())"
         and c = "Some ()"]
    typed_Make_narrows
      [where Factory_Make = "\<lambda>name s. ((Universal (), None), s)"
         and name = "''a''" and s = "()" and s' = "()" and v = "Universal ()" and r = "()"]
  by simp


end
